theory Spec2Isabelle
  imports Complex_Main "HOL-Library.Multiset"
begin

section \<open>Data model of dataset.py\<close>

text \<open>
  The exceptions the modelled code can raise. Every \<open>raise\<close>, failed \<open>assert\<close> and
  failing library call of the source is an \<open>Inl\<close> branch of the model.
\<close>

datatype error =
  AssertionError | ValueError | IndexError | TypeError | RuntimeError | OverflowError

text \<open>
  A sample is the dictionary built by \<open>parse_sample_file\<close>: \<open>frames\<close> is the (N, 63)
  float32 array as a list of rows, \<open>frame_ids\<close> the (N,) int32 array, \<open>drop_frame\<close> a
  Python int and \<open>label_xyz\<close> the float32 landing coordinates. Entries of float arrays are
  modelled as exact reals: rounding of float32 and float64 arithmetic is outside this
  model, but the two constants that the code adds to the deviations are the floating
  point values of \<open>1e-6\<close>. Entries of \<open>frame_ids\<close> are integers of the int32 range, and
  arithmetic on them wraps as int32 does.
\<close>

record sample =
  frames :: "real list list"
  frame_ids :: "int list"
  drop_frame :: int
  label_xyz :: "real list"

subsection \<open>Python sequences\<close>

text \<open>A slice bound of Python: a negative bound counts from the end, and both are clamped.\<close>

definition slice_bound :: "nat \<Rightarrow> int \<Rightarrow> nat" where
  "slice_bound n i = (if i < 0 then nat (max 0 (int n + i)) else min n (nat i))"

text \<open>\<open>xs[a:b]\<close>.\<close>

definition py_slice :: "'a list \<Rightarrow> int \<Rightarrow> int \<Rightarrow> 'a list" where
  "py_slice xs a b =
     (let lo = slice_bound (length xs) a; hi = slice_bound (length xs) b
      in take (hi - lo) (drop lo xs))"

text \<open>
  \<open>xs[i]\<close>: an index from \<open>-len(xs)\<close> up to \<open>-1\<close> reads from the end, and any index
  outside \<open>[-len(xs), len(xs))\<close> raises IndexError.
\<close>

definition py_get :: "'a list \<Rightarrow> int \<Rightarrow> error + 'a" where
  "py_get xs i =
     (if 0 \<le> i \<and> i < int (length xs) then Inr (xs ! nat i)
      else if i < 0 \<and> - int (length xs) \<le> i then Inr (xs ! nat (int (length xs) + i))
      else Inl IndexError)"

subsection \<open>Arithmetic of numpy scalars\<close>

text \<open>The int32 range, and the int32 value that an integer wraps to.\<close>

definition in_int32 :: "int \<Rightarrow> bool" where
  "in_int32 x \<longleftrightarrow> - 2147483648 \<le> x \<and> x < 2147483648"

definition wrap32 :: "int \<Rightarrow> int" where
  "wrap32 x = (x + 2147483648) mod 4294967296 - 2147483648"

text \<open>
  \<open>a - b\<close> for a Python int \<open>a\<close> and an \<open>np.int32\<close> scalar \<open>b\<close>, as numpy 2 computes it: the
  Python int is converted to int32, which raises OverflowError when it is out of range,
  and the difference is taken in int32, where it wraps (with a warning, no exception).
\<close>

definition sub_int32 :: "int \<Rightarrow> int \<Rightarrow> error + int" where
  "sub_int32 a b = (if in_int32 a then Inr (wrap32 (a - b)) else Inl OverflowError)"

text \<open>
  The value of \<open>1e-6\<close> as a float32, which is what is added to a float32 array, and as a
  float64. Both are below the real number \<open>1 / 1000000\<close>.
\<close>

definition float32_1e6 :: real where
  "float32_1e6 = 8796093 / 2 ^ 43"

definition float64_1e6 :: real where
  "float64_1e6 = 4722366482869645 / 2 ^ 72"

subsection \<open>Random generators\<close>

text \<open>
  The two process-wide generators (\<open>np.random\<close> and \<open>random\<close>) are explicit arguments:
  a generator is the stream of raw draws it will produce. \<open>randint lo hi\<close> is
  \<open>np.random.randint(lo, hi)\<close>: it raises ValueError when \<open>lo >= hi\<close> and otherwise returns
  a value of \<open>[lo, hi)\<close>; every value of the range is the result for some stream. The
  distribution of the draws is not modelled.
\<close>

type_synonym rng = "nat \<Rightarrow> nat"

definition randint :: "int \<Rightarrow> int \<Rightarrow> rng \<Rightarrow> error + (int \<times> rng)" where
  "randint lo hi g =
     (if lo \<ge> hi then Inl ValueError
      else Inr (lo + int (g 0 mod nat (hi - lo)), g \<circ> Suc))"

text \<open>
  \<open>random.shuffle(x)\<close> of the standard library:
  \<open>for i in reversed(range(1, len(x))): j = randbelow(i + 1); x[i], x[j] = x[j], x[i]\<close>.
\<close>

fun shuffle_loop :: "nat \<Rightarrow> 'a list \<Rightarrow> rng \<Rightarrow> 'a list \<times> rng" where
  "shuffle_loop 0 xs g = (xs, g)"
| "shuffle_loop (Suc i) xs g =
     (let j = g 0 mod (Suc i + 1)
      in shuffle_loop i (xs[Suc i := xs ! j, j := xs ! Suc i]) (g \<circ> Suc))"

definition shuffle :: "'a list \<Rightarrow> rng \<Rightarrow> 'a list \<times> rng" where
  "shuffle xs g = shuffle_loop (length xs - 1) xs g"

section \<open>resampling_v2\<close>

text \<open>
  The two nested loops append, for every sample in order, \<open>num_subsamples\<close> dictionaries
  holding the sample's four fields; \<open>range\<close> of a negative number is empty. The list is
  then shuffled in place and returned. The state of the generator after the call is read by
  no other modelled function and is dropped.
\<close>

definition expand_v2 :: "sample list \<Rightarrow> int \<Rightarrow> sample list" where
  "expand_v2 smp num_subsamples =
     concat (map (\<lambda>s. map (\<lambda>k. \<lparr>frames = frames s, frame_ids = frame_ids s,
                                  drop_frame = drop_frame s, label_xyz = label_xyz s\<rparr>)
                           [0..<nat num_subsamples]) smp)"

definition resampling_v2 :: "sample list \<Rightarrow> int \<Rightarrow> rng \<Rightarrow> sample list" where
  "resampling_v2 smp num_subsamples g = fst (shuffle (expand_v2 smp num_subsamples) g)"

section \<open>Sequencing of fallible steps\<close>

text \<open>A statement that raises ends the function: the rest runs on the value of a step that returned.\<close>

definition ebind :: "error + 'a \<Rightarrow> ('a \<Rightarrow> error + 'b) \<Rightarrow> error + 'b" where
  "ebind r f = (case r of Inl e \<Rightarrow> Inl e | Inr x \<Rightarrow> f x)"

text \<open>A comprehension or loop whose body can raise stops at the first element that raises.\<close>

fun map_err :: "('a \<Rightarrow> error + 'b) \<Rightarrow> 'a list \<Rightarrow> error + 'b list" where
  "map_err f [] = Inr []"
| "map_err f (x # xs) = ebind (f x) (\<lambda>y. ebind (map_err f xs) (\<lambda>ys. Inr (y # ys)))"

section \<open>resampling\<close>

text \<open>
  The inner loop \<open>for k in range(num_subsamples)\<close> over one sample, by the number of
  iterations left. A drawn \<open>seq_len\<close> above \<open>total_len\<close> takes the \<open>continue\<close>; otherwise a
  second draw fixes \<open>end_idx\<close> and the sliced dictionary is appended. The generator
  \<open>np.random\<close> is threaded through the draws.
\<close>

fun resampling_inner ::
  "sample \<Rightarrow> nat \<Rightarrow> int \<Rightarrow> int \<Rightarrow> rng \<Rightarrow> error + (sample list \<times> rng)" where
  "resampling_inner s 0 mn mx g = Inr ([], g)"
| "resampling_inner s (Suc k) mn mx g =
     (let total_len = int (length (frames s)) in
      ebind (randint mn (mx + 1) g) (\<lambda>(seq_len, g1).
        if seq_len > total_len then resampling_inner s k mn mx g1
        else
          ebind (randint (seq_len - 1) total_len g1) (\<lambda>(end_idx, g2).
            let start_idx = end_idx - seq_len + 1;
                sub_sample = \<lparr>frames = py_slice (frames s) start_idx (end_idx + 1),
                              frame_ids = py_slice (frame_ids s) start_idx (end_idx + 1),
                              drop_frame = drop_frame s, label_xyz = label_xyz s\<rparr>
            in ebind (resampling_inner s k mn mx g2) (\<lambda>(rest, g3).
                 Inr (sub_sample # rest, g3)))))"

text \<open>The outer loop \<open>for s in samples\<close>.\<close>

fun resampling_outer ::
  "sample list \<Rightarrow> int \<Rightarrow> int \<Rightarrow> int \<Rightarrow> rng \<Rightarrow> error + (sample list \<times> rng)" where
  "resampling_outer [] num_subsamples mn mx g = Inr ([], g)"
| "resampling_outer (s # ss) num_subsamples mn mx g =
     ebind (resampling_inner s (nat num_subsamples) mn mx g) (\<lambda>(xs, g1).
       ebind (resampling_outer ss num_subsamples mn mx g1) (\<lambda>(ys, g2). Inr (xs @ ys, g2)))"

text \<open>\<open>resampling\<close>: \<open>g\<close> is \<open>np.random\<close>, \<open>pg\<close> is the generator of \<open>random.shuffle\<close>.\<close>

definition resampling ::
  "sample list \<Rightarrow> int \<Rightarrow> int \<Rightarrow> int \<Rightarrow> rng \<Rightarrow> rng \<Rightarrow> error + sample list" where
  "resampling smp num_subsamples mn mx g pg =
     ebind (resampling_outer smp num_subsamples mn mx g) (\<lambda>(expanded_samples, g').
       Inr (fst (shuffle expanded_samples pg)))"

section \<open>Normalization statistics\<close>

text \<open>
  A two-dimensional array is the list of its rows. The width of an array with no rows is
  not represented (\<open>ncols\<close> gives 0); the arrays of the claims below all have a row.
\<close>

definition ncols :: "real list list \<Rightarrow> nat" where
  "ncols m = (case m of [] \<Rightarrow> 0 | r # _ \<Rightarrow> length r)"

definition column :: "nat \<Rightarrow> real list list \<Rightarrow> real list" where
  "column j m = map (\<lambda>r. r ! j) m"

text \<open>\<open>x.mean()\<close> and \<open>x.std()\<close> of numpy: \<open>std = sqrt(mean(abs(x - x.mean())**2))\<close>.\<close>

definition mean :: "real list \<Rightarrow> real" where
  "mean xs = sum_list xs / real (length xs)"

definition std :: "real list \<Rightarrow> real" where
  "std xs = sqrt (mean (map (\<lambda>x. \<bar>x - mean xs\<bar> ^ 2) xs))"

definition mean_axis0 :: "real list list \<Rightarrow> real list" where
  "mean_axis0 m = map (\<lambda>j. mean (column j m)) [0..<ncols m]"

definition std_axis0 :: "real list list \<Rightarrow> real list" where
  "std_axis0 m = map (\<lambda>j. std (column j m)) [0..<ncols m]"

text \<open>\<open>np.concatenate(arrays, axis=0)\<close>: ValueError on no array or on differing widths.\<close>

definition np_concatenate :: "real list list list \<Rightarrow> error + real list list" where
  "np_concatenate ms =
     (if ms = [] then Inl ValueError
      else if list_all (\<lambda>r. length r = ncols (concat ms)) (concat ms) then Inr (concat ms)
      else Inl ValueError)"

text \<open>\<open>np.stack(vectors, axis=0)\<close>: ValueError on no vector or on differing lengths.\<close>

definition np_stack :: "real list list \<Rightarrow> error + real list list" where
  "np_stack vs =
     (if vs = [] then Inl ValueError
      else if list_all (\<lambda>v. length v = length (hd vs)) vs then Inr vs
      else Inl ValueError)"

text \<open>
  \<open>np.concatenate([s["label_xyz"], [s["drop_frame"] - s["frame_ids"][-1]]])\<close>: the
  difference is that of a Python int and an \<open>np.int32\<close>; the result is a float64 array.
\<close>

definition label_row :: "sample \<Rightarrow> error + real list" where
  "label_row s =
     ebind (py_get (frame_ids s) (- 1)) (\<lambda>last_id.
     ebind (sub_int32 (drop_frame s) last_id) (\<lambda>d.
       Inr (label_xyz s @ [real_of_int d])))"

text \<open>
  Lines 225 to 231 of \<open>__init__\<close>: the four statistics, in the order of \<open>get_norm_stats\<close>.
  With \<open>keepdims=True\<close> each is a (1, F) array, modelled as its row. \<open>all_features\<close> is a
  float32 array, so \<open>+ 1e-6\<close> adds the float32 value of \<open>1e-6\<close> to its deviations;
  \<open>all_labels\<close> is a float64 array. A pool none of whose trajectories has a frame is
  outside the model: numpy gives \<open>nan\<close> statistics of width F there, the model gives empty
  ones.
\<close>

definition norm_stats ::
  "sample list \<Rightarrow> error + (real list \<times> real list \<times> real list \<times> real list)" where
  "norm_stats smp =
     ebind (np_concatenate (map frames smp)) (\<lambda>all_features.
     ebind (map_err label_row smp) (\<lambda>rows.
     ebind (np_stack rows) (\<lambda>all_labels.
       Inr (mean_axis0 all_features,
            map (\<lambda>x. x + float32_1e6) (std_axis0 all_features),
            mean_axis0 all_labels,
            map (\<lambda>x. x + float64_1e6) (std_axis0 all_labels)))))"

section \<open>BadmintonDataset\<close>

text \<open>
  The attributes of the object. A statistics attribute is \<open>None\<close> when the constructor was
  given none; the two noise attributes exist in training mode only.
\<close>

record dataset =
  samples :: "sample list"
  min_len :: int
  max_len :: int
  mode :: string
  feature_mean :: "real list option"
  feature_std :: "real list option"
  label_mean :: "real list option"
  label_std :: "real list option"
  noise_std_x :: "real option"
  noise_std_y :: "real option"

text \<open>
  \<open>__init__\<close>. \<open>pg\<close> is the generator that \<open>resampling_v2\<close> shuffles with. In training mode
  the statistics come from the samples passed in, before they are replicated;
  \<open>label_std[0][1]\<close> raises IndexError when a label row has one entry only. In any other
  mode the four arguments are stored as they are.
\<close>

definition BadmintonDataset_init ::
  "sample list \<Rightarrow> int \<Rightarrow> int \<Rightarrow> string \<Rightarrow> int \<Rightarrow> real list option \<Rightarrow> real list option \<Rightarrow>
   real list option \<Rightarrow> real list option \<Rightarrow> rng \<Rightarrow> error + dataset" where
  "BadmintonDataset_init smp mn mx md num_subsamples fmean fstd lmean lstd pg =
     (if \<not> length smp > 0 then Inl AssertionError
      else if md = ''train'' then
        ebind (norm_stats smp) (\<lambda>(fm, fs, lm, ls).
        ebind (py_get ls 0) (\<lambda>sx.
        ebind (py_get ls 1) (\<lambda>sy.
          Inr \<lparr>samples = resampling_v2 smp num_subsamples pg,
               min_len = mn, max_len = mx, mode = md,
               feature_mean = Some fm, feature_std = Some fs,
               label_mean = Some lm, label_std = Some ls,
               noise_std_x = Some (sx / 5), noise_std_y = Some (sy / 5)\<rparr>)))
      else
        Inr \<lparr>samples = smp, min_len = mn, max_len = mx, mode = md,
             feature_mean = fmean, feature_std = fstd,
             label_mean = lmean, label_std = lstd,
             noise_std_x = None, noise_std_y = None\<rparr>)"

definition get_norm_stats ::
  "dataset \<Rightarrow> real list option \<times> real list option \<times> real list option \<times> real list option" where
  "get_norm_stats ds = (feature_mean ds, feature_std ds, label_mean ds, label_std ds)"

definition len_dataset :: "dataset \<Rightarrow> nat" where
  "len_dataset ds = length (samples ds)"

subsection \<open>The window of an access\<close>

text \<open>Lines 255 to 261: the training branch. It returns \<open>(start_idx, end_idx)\<close>.\<close>

definition train_window :: "int \<Rightarrow> int \<Rightarrow> int \<Rightarrow> rng \<Rightarrow> error + (int \<times> int)" where
  "train_window mn mx total_len g =
     ebind (randint mn (mx + 1) g) (\<lambda>(drawn, g').
       let seq_len = (if drawn > total_len then total_len else drawn);
           end_idx = total_len - 1;
           start_idx = end_idx - seq_len + 1
       in Inr (start_idx, end_idx))"

text \<open>Lines 264 to 267: the branch of every other mode.\<close>

definition eval_window :: "int \<Rightarrow> int \<Rightarrow> int \<times> int" where
  "eval_window mx total_len =
     (let seq_len = mx;
          start_idx = total_len - seq_len;
          end_idx = total_len - 1
      in (start_idx, end_idx))"

subsection \<open>Tensor arithmetic\<close>

text \<open>\<open>torch.from_numpy(a)\<close> raises TypeError when \<open>a\<close> is \<open>None\<close>.\<close>

definition from_numpy :: "real list option \<Rightarrow> error + real list" where
  "from_numpy a = (case a of None \<Rightarrow> Inl TypeError | Some v \<Rightarrow> Inr v)"

text \<open>
  An elementwise operation on two vectors broadcasts a vector of size one and raises
  RuntimeError on any other two different sizes. On an (L, F) tensor and a (1, F') tensor
  it works row by row. Division is that of the reals: a zero divisor, which gives
  \<open>inf\<close> or \<open>nan\<close> in torch and no exception, is outside the model.
\<close>

definition broadcast ::
  "(real \<Rightarrow> real \<Rightarrow> real) \<Rightarrow> real list \<Rightarrow> real list \<Rightarrow> error + real list" where
  "broadcast f xs ys =
     (if length xs = length ys then Inr (map (\<lambda>(x, y). f x y) (zip xs ys))
      else if length ys = 1 then Inr (map (\<lambda>x. f x (hd ys)) xs)
      else if length xs = 1 then Inr (map (\<lambda>y. f (hd xs) y) ys)
      else Inl RuntimeError)"

definition broadcast_rows ::
  "(real \<Rightarrow> real \<Rightarrow> real) \<Rightarrow> real list list \<Rightarrow> real list \<Rightarrow> error + real list list" where
  "broadcast_rows f m v = map_err (\<lambda>r. broadcast f r v) m"

text \<open>Line 277: \<open>(seq - from_numpy(mean)) / from_numpy(std)\<close>, evaluated left to right.\<close>

definition normalize_seq ::
  "real list list \<Rightarrow> real list option \<Rightarrow> real list option \<Rightarrow> error + real list list" where
  "normalize_seq seq m s =
     ebind (from_numpy m) (\<lambda>mv.
     ebind (broadcast_rows (\<lambda>x y. x - y) seq mv) (\<lambda>centred.
     ebind (from_numpy s) (\<lambda>sv.
       broadcast_rows (\<lambda>x y. x / y) centred sv)))"

text \<open>Lines 289 and 290, on the label vector.\<close>

definition normalize_label ::
  "real list \<Rightarrow> real list option \<Rightarrow> real list option \<Rightarrow> error + real list" where
  "normalize_label v m s =
     ebind (from_numpy m) (\<lambda>mv.
     ebind (broadcast (\<lambda>x y. x - y) v mv) (\<lambda>centred.
     ebind (from_numpy s) (\<lambda>sv.
       broadcast (\<lambda>x y. x / y) centred sv)))"

subsection \<open>The accessor\<close>

text \<open>
  \<open>__getitem__\<close>, in the order of its statements. \<open>g\<close> is \<open>np.random\<close>. The result is
  \<open>(seq, length, label_xyz_norm, label_time_norm)\<close>.
\<close>

definition getitem ::
  "dataset \<Rightarrow> int \<Rightarrow> rng \<Rightarrow> error + (real list list \<times> int \<times> real list \<times> real)" where
  "getitem ds idx g =
     ebind (py_get (samples ds) idx) (\<lambda>s.
       let total_frames = frames s;
           total_frame_ids = frame_ids s;
           total_len = int (length total_frames)
       in
       ebind (if mode ds = ''train''
              then train_window (min_len ds) (max_len ds) total_len g
              else Inr (eval_window (max_len ds) total_len)) (\<lambda>(start_idx, end_idx).
         let seq = py_slice total_frames start_idx (end_idx + 1);
             fids = py_slice total_frame_ids start_idx (end_idx + 1);
             len = int (length seq);
             label_xyz_raw = label_xyz s
         in
         ebind (py_get fids (- 1)) (\<lambda>last_id.
         ebind (sub_int32 (drop_frame s) last_id) (\<lambda>d.
           let label_time_raw = real_of_int d in
           ebind (normalize_seq seq (feature_mean ds) (feature_std ds)) (\<lambda>seq_norm.
           ebind (normalize_label (label_xyz_raw @ [label_time_raw])
                    (label_mean ds) (label_std ds)) (\<lambda>label_all.
           ebind (py_get label_all 3) (\<lambda>label_time_norm.
             Inr (seq_norm, len, py_slice label_all 0 3, label_time_norm))))))))"

section \<open>collate_fn_dynamic\<close>

text \<open>\<open>max(lengths)\<close> of a non-empty sequence.\<close>

definition max_list :: "int list \<Rightarrow> int" where
  "max_list ls = foldl max (hd ls) (tl ls)"

text \<open>\<open>torch.stack\<close> raises RuntimeError unless all tensors have the shape of the first.\<close>

definition stack_by :: "('a \<Rightarrow> 'b) \<Rightarrow> 'a list \<Rightarrow> error + 'a list" where
  "stack_by shp xs =
     (if xs \<noteq> [] \<and> list_all (\<lambda>x. shp x = shp (hd xs)) xs then Inr xs else Inl RuntimeError)"

definition shape2 :: "real list list \<Rightarrow> nat \<times> nat" where
  "shape2 m = (length m, ncols m)"

text \<open>
  The body of the loop, for one \<open>(seq, l)\<close>: \<open>torch.cat([pad, seq])\<close> raises RuntimeError
  when \<open>seq\<close> is not \<open>feature_dim\<close> wide, \<open>torch.ones(max_len)\<close> when \<open>max_len\<close> is negative,
  and \<open>mask[:pad_len] = False\<close> is a slice assignment.
\<close>

definition pad_item ::
  "nat \<Rightarrow> int \<Rightarrow> real list list \<times> int \<Rightarrow> error + (real list list \<times> bool list)" where
  "pad_item feature_dim mxl sl =
     (case sl of (seq, l) \<Rightarrow>
      let pad_len = mxl - l in
      ebind (if pad_len > 0
             then (if list_all (\<lambda>r. length r = feature_dim) seq
                   then Inr (replicate (nat pad_len) (replicate feature_dim 0) @ seq)
                   else Inl RuntimeError)
             else Inr seq) (\<lambda>seq_padded.
        if mxl < 0 then Inl RuntimeError
        else
          let n = nat mxl; b = slice_bound n pad_len
          in Inr (seq_padded, replicate b False @ replicate (n - b) True)))"

text \<open>
  \<open>collate_fn_dynamic\<close>: unpacking \<open>zip(*batch)\<close> of an empty batch raises ValueError.
  The result is \<open>(seqs_padded, lengths, masks, xyzs, times)\<close>.
\<close>

definition collate_fn_dynamic ::
  "(real list list \<times> int \<times> real list \<times> real) list \<Rightarrow>
   error + (real list list list \<times> int list \<times> bool list list \<times> real list list \<times> real list)" where
  "collate_fn_dynamic batch =
     (if batch = [] then Inl ValueError
      else
        let seqs = map fst batch;
            lengths = map (\<lambda>b. fst (snd b)) batch;
            xyzs = map (\<lambda>b. fst (snd (snd b))) batch;
            times = map (\<lambda>b. snd (snd (snd b))) batch;
            feature_dim = ncols (hd seqs);
            mxl = max_list lengths
        in
        ebind (map_err (pad_item feature_dim mxl) (zip seqs lengths)) (\<lambda>padded.
        ebind (stack_by shape2 (map fst padded)) (\<lambda>seqs_padded.
        ebind (stack_by length (map snd padded)) (\<lambda>masks.
        ebind (stack_by length xyzs) (\<lambda>xyzs_stacked.
          Inr (seqs_padded, lengths, masks, xyzs_stacked, times))))))"

section \<open>Hypotheses and reference functions of the theorems\<close>

text \<open>
  The shape of a trajectory that the parser produces, for a feature width \<open>F\<close>: every
  frame has \<open>F\<close> values, there is one frame number per frame, at least one frame, and
  three landing coordinates; moreover \<open>drop_frame\<close> is in the int32 range, as the frame
  numbers are. It is the hypothesis of the theorems on well-formed pools, and no function
  of the model tests it.
\<close>

definition wf_sample :: "nat \<Rightarrow> sample \<Rightarrow> bool" where
  "wf_sample F s \<longleftrightarrow>
     list_all (\<lambda>r. length r = F) (frames s) \<and> length (frame_ids s) = length (frames s)
     \<and> 1 \<le> length (frames s) \<and> length (label_xyz s) = 3 \<and> in_int32 (drop_frame s)"

text \<open>
  The label row of a sample that has a frame number and whose \<open>drop_frame\<close> is in the
  int32 range: the value of \<open>label_row\<close> there.
\<close>

definition label_vec :: "sample \<Rightarrow> real list" where
  "label_vec s = label_xyz s @ [real_of_int (wrap32 (drop_frame s - last (frame_ids s)))]"

text \<open>
  Elementwise normalization as the specification words it, \<open>(v[j] - m[j]) / s[j]\<close> at
  every position of \<open>v\<close>. The theorems on \<open>__getitem__\<close> compare the code's broadcasting
  arithmetic with it.
\<close>

definition norm_vec :: "real list \<Rightarrow> real list \<Rightarrow> real list \<Rightarrow> real list" where
  "norm_vec m s v = map (\<lambda>j. (v ! j - m ! j) / s ! j) [0..<length v]"

text \<open>
  An example as \<open>collate_fn_dynamic\<close> expects it from \<open>__getitem__\<close>: a sequence of at least
  one frame, all of width \<open>F\<close>, its own length, and three landing coordinates. It is a
  hypothesis of the theorem on the collator and is tested by no function of the model.
\<close>

definition wf_item :: "nat \<Rightarrow> real list list \<times> int \<times> real list \<times> real \<Rightarrow> bool" where
  "wf_item F b \<longleftrightarrow>
     (case b of (seq, l, xyz, t) \<Rightarrow>
        l = int (length seq) \<and> 1 \<le> length seq \<and> list_all (\<lambda>r. length r = F) seq
        \<and> length xyz = 3)"

text \<open>
  The entries that \<open>resampling\<close> builds from a sample \<open>s\<close>: for some \<open>seq_len\<close> of \<open>[mn, mx]\<close> not above the length of the trajectory and some
  \<open>end_idx\<close> of \<open>[seq_len - 1, total_len - 1]\<close>, the dictionary holding the slices
  \<open>[end_idx - seq_len + 1 : end_idx + 1]\<close> of the frames and of the frame numbers, and the
  sample's \<open>drop_frame\<close> and \<open>label_xyz\<close>.
\<close>

definition is_subsample :: "int \<Rightarrow> int \<Rightarrow> sample \<Rightarrow> sample \<Rightarrow> bool" where
  "is_subsample mn mx s e \<longleftrightarrow>
     (\<exists>seq_len end_idx.
        mn \<le> seq_len \<and> seq_len \<le> mx \<and> seq_len \<le> int (length (frames s))
      \<and> seq_len - 1 \<le> end_idx \<and> end_idx \<le> int (length (frames s)) - 1
      \<and> e = \<lparr>frames = py_slice (frames s) (end_idx - seq_len + 1) (end_idx + 1),
               frame_ids = py_slice (frame_ids s) (end_idx - seq_len + 1) (end_idx + 1),
               drop_frame = drop_frame s, label_xyz = label_xyz s\<rparr>
      \<and> frames e = take (nat seq_len) (drop (nat (end_idx - seq_len + 1)) (frames s))
      \<and> int (length (frames e)) = seq_len)"

section \<open>Concrete inputs\<close>

text \<open>Ten trajectories of two frames each, pairwise different.\<close>

definition pool10 :: "sample list" where
  "pool10 = map (\<lambda>i. \<lparr>frames = [[real i], [real i + 1]], frame_ids = [0, 1],
                        drop_frame = 5 + int i, label_xyz = [real i, 0, 0]\<rparr>) [0..<10]"

text \<open>A generator: the stream of draws 0, 1, 2, ...\<close>

definition gen0 :: rng where
  "gen0 = (\<lambda>n. n)"

text \<open>The generator whose draws are \<open>k\<close>, \<open>k + 1\<close>, \<open>k + 2\<close>, ...\<close>

definition gen_from :: "nat \<Rightarrow> rng" where
  "gen_from k = (\<lambda>n. n + k)"

text \<open>A trajectory of eight frames of width one, and an evaluation dataset with \<open>max_len = 10\<close> on it.\<close>

definition traj8 :: sample where
  "traj8 = \<lparr>frames = [[0], [1], [2], [3], [4], [5], [6], [7]],
            frame_ids = [0, 1, 2, 3, 4, 5, 6, 7], drop_frame = 12, label_xyz = [1, 2, 3]\<rparr>"

definition eval8 :: dataset where
  "eval8 = \<lparr>samples = [traj8], min_len = 1, max_len = 10, mode = ''test'',
            feature_mean = Some [0], feature_std = Some [1],
            label_mean = Some [0, 0, 0, 0], label_std = Some [1, 1, 1, 1],
            noise_std_x = None, noise_std_y = None\<rparr>"

text \<open>A trajectory whose only feature is constant, alone in its pool.\<close>

definition traj_const :: sample where
  "traj_const = \<lparr>frames = [[5], [5]], frame_ids = [3, 4], drop_frame = 9,
                 label_xyz = [100, 50, 0]\<rparr>"

text \<open>The object that training-mode construction returns on the pool of \<open>traj_const\<close> alone.\<close>

definition trained_const :: dataset where
  "trained_const =
     \<lparr>samples = [traj_const], min_len = 10, max_len = 50, mode = ''train'',
      feature_mean = Some [5], feature_std = Some [float32_1e6],
      label_mean = Some [100, 50, 0, 5],
      label_std = Some [float64_1e6, float64_1e6, float64_1e6, float64_1e6],
      noise_std_x = Some (float64_1e6 / 5), noise_std_y = Some (float64_1e6 / 5)\<rparr>"

text \<open>
  The trajectory of the end-to-end example: frame numbers 0 to 19, \<open>drop_frame = 25\<close>,
  landing point (100, 50, 0); frame \<open>i\<close> holds the single value \<open>i\<close>. With it an
  evaluation dataset with \<open>max_len = 10\<close>.
\<close>

definition traj20 :: sample where
  "traj20 = \<lparr>frames = map (\<lambda>i. [real i]) [0..<20], frame_ids = map int [0..<20],
             drop_frame = 25, label_xyz = [100, 50, 0]\<rparr>"

definition eval20 :: dataset where
  "eval20 = \<lparr>samples = [traj20], min_len = 10, max_len = 10, mode = ''test'',
             feature_mean = Some [1], feature_std = Some [2],
             label_mean = Some [10, 20, 30, 4], label_std = Some [2, 4, 5, 8],
             noise_std_x = None, noise_std_y = None\<rparr>"

text \<open>
  A trajectory whose last frame number is -1 and whose \<open>drop_frame\<close> is the greatest
  int32, and an evaluation dataset with \<open>max_len = 2\<close> on it.
\<close>

definition traj_wrap :: sample where
  "traj_wrap = \<lparr>frames = [[0], [0]], frame_ids = [- 2, - 1], drop_frame = 2147483647,
                label_xyz = [0, 0, 0]\<rparr>"

definition eval_wrap :: dataset where
  "eval_wrap = \<lparr>samples = [traj_wrap], min_len = 1, max_len = 2, mode = ''test'',
                feature_mean = Some [0], feature_std = Some [1],
                label_mean = Some [0, 0, 0, 0], label_std = Some [1, 1, 1, 1],
                noise_std_x = None, noise_std_y = None\<rparr>"

text \<open>A batch of three examples of lengths 3, 5 and 2 and width 2.\<close>

definition batch352 :: "(real list list \<times> int \<times> real list \<times> real) list" where
  "batch352 =
     [([[1, 2], [3, 4], [5, 6]], 3, [1, 2, 3], 7),
      ([[1, 1], [2, 2], [3, 3], [4, 4], [5, 5]], 5, [4, 5, 6], 8),
      ([[9, 8], [7, 6]], 2, [7, 8, 9], 9)]"

text \<open>A pool of two trajectories of width one.\<close>

definition pool2 :: "sample list" where
  "pool2 = [traj8, traj_const]"

section \<open>Properties of the shuffle and of resampling_v2\<close>

lemma length_shuffle_loop: "length (fst (shuffle_loop i xs g)) = length xs"
  by (induction i xs g rule: shuffle_loop.induct) (simp_all add: Let_def comp_def)

lemma mset_shuffle_loop: "i < length xs \<Longrightarrow> mset (fst (shuffle_loop i xs g)) = mset xs"
proof (induction i xs g rule: shuffle_loop.induct)
  case (1 xs g)
  then show ?case by simp
next
  case (2 i xs g)
  define j where "j = g 0 mod (Suc i + 1)"
  have j: "j < length xs" using 2(2) by (simp add: j_def) (metis Suc_lessD less_Suc_eq_le less_le_trans mod_less_divisor not_less zero_less_Suc)
  have "mset (xs[Suc i := xs ! j, j := xs ! Suc i]) = mset xs"
    using mset_swap [of j xs "Suc i"] 2(2) j by simp
  moreover have "i < length (xs[Suc i := xs ! j, j := xs ! Suc i])"
    using 2(2) by simp
  ultimately show ?case
    using 2(1) [of j] by (simp add: j_def Let_def comp_def)
qed

lemma mset_shuffle: "mset (fst (shuffle xs g)) = mset xs"
proof (cases xs)
  case Nil
  then show ?thesis by (simp add: shuffle_def)
next
  case (Cons a as)
  then show ?thesis by (simp add: shuffle_def mset_shuffle_loop)
qed

lemma sample_copy: "\<lparr>frames = frames s, frame_ids = frame_ids s,
    drop_frame = drop_frame s, label_xyz = label_xyz s\<rparr> = s"
  by (cases s) simp

lemma expand_v2_replicate:
  "expand_v2 smp R = concat (map (replicate (nat R)) smp)"
  by (simp add: expand_v2_def sample_copy map_replicate_const)

lemma mset_concat_replicate:
  "mset (concat (map (replicate n) xs)) = repeat_mset n (mset xs)"
  by (induction xs) (simp_all add: multiset_eq_iff)

lemma in_repeat_mset: "x \<in># repeat_mset n M \<longleftrightarrow> 0 < n \<and> x \<in># M"
  by (simp add: count_greater_zero_iff [symmetric] del: count_greater_zero_iff)

lemma set_mset_repeat_mset:
  "set_mset (repeat_mset n M) = (if n = 0 then {} else set_mset M)"
  by (auto simp: in_repeat_mset)

lemma mset_resampling_v2:
  "mset (resampling_v2 smp R g) = repeat_mset (nat R) (mset smp)"
  by (simp add: resampling_v2_def mset_shuffle expand_v2_replicate mset_concat_replicate)

text \<open>
  Claim C7. For a list of N samples and a replication factor R (a non-negative
  \<open>num_subsamples\<close>), \<open>resampling_v2\<close> returns exactly R * N entries. The result is a
  permutation of the list holding every input sample R times: as a multiset it is the
  R-fold copy of the input, so every sample occurs R times as often as in the input, every
  entry is one of the input samples with all four fields unsliced, and for R at least 1
  every input sample is present.
\<close>

theorem resampling_v2_replicates:
  "0 \<le> R \<Longrightarrow>
     int (length (resampling_v2 smp R g)) = R * int (length smp)
   \<and> mset (resampling_v2 smp R g) = repeat_mset (nat R) (mset smp)
   \<and> (\<forall>s. count_list (resampling_v2 smp R g) s = nat R * count_list smp s)
   \<and> set (resampling_v2 smp R g) \<subseteq> set smp
   \<and> (1 \<le> R \<longrightarrow> set (resampling_v2 smp R g) = set smp)"
proof -
  assume R: "0 \<le> R"
  let ?out = "resampling_v2 smp R g"
  have m: "mset ?out = repeat_mset (nat R) (mset smp)"
    by (rule mset_resampling_v2)
  have "size (mset ?out) = nat R * size (mset smp)"
    by (simp add: m)
  then have l: "int (length ?out) = R * int (length smp)"
    using R by simp
  have c: "count_list ?out s = nat R * count_list smp s" for s
    using arg_cong [OF m, of "\<lambda>M. count M s"] by (simp add: count_mset)
  have sm: "set_mset (mset ?out) = (if nat R = 0 then {} else set_mset (mset smp))"
    unfolding m by (rule set_mset_repeat_mset)
  have s1: "set ?out \<subseteq> set smp"
    using sm by (simp split: if_splits)
  have s2: "set ?out = set smp" if "1 \<le> R"
    using sm that by (simp split: if_splits)
  show ?thesis
    using m l c s1 s2 by blast
qed

text \<open>With R = 4 and the ten trajectories of \<open>pool10\<close>: 40 entries, every trajectory present.\<close>

theorem resampling_v2_replicates_witness:
  "length (resampling_v2 pool10 4 (\<lambda>n. 7 * n + 3)) = 40
   \<and> set (resampling_v2 pool10 4 (\<lambda>n. 7 * n + 3)) = set pool10
   \<and> length pool10 = 10"
proof -
  have n: "length pool10 = 10"
    by (simp add: pool10_def)
  have "int (length (resampling_v2 pool10 4 (\<lambda>n. 7 * n + 3))) = 4 * int (length pool10)"
    and "set (resampling_v2 pool10 4 (\<lambda>n. 7 * n + 3)) = set pool10"
    using resampling_v2_replicates [of 4 pool10 "\<lambda>n. 7 * n + 3"] by simp_all
  then show ?thesis
    using n by simp
qed

section \<open>Fallible steps\<close>

lemma ebind_Inl [simp]: "ebind (Inl e) f = Inl e"
  by (simp add: ebind_def)

lemma ebind_Inr [simp]: "ebind (Inr x) f = f x"
  by (simp add: ebind_def)

lemma ebind_eq_Inr: "ebind r f = Inr y \<longleftrightarrow> (\<exists>x. r = Inr x \<and> f x = Inr y)"
  by (cases r) simp_all

section \<open>Construction in evaluation mode\<close>

lemma normalize_seq_Inr: "normalize_seq seq m s = Inr r \<Longrightarrow> m \<noteq> None \<and> s \<noteq> None"
  by (auto simp: normalize_seq_def from_numpy_def ebind_eq_Inr split: option.splits)

lemma normalize_label_Inr: "normalize_label v m s = Inr r \<Longrightarrow> m \<noteq> None \<and> s \<noteq> None"
  by (auto simp: normalize_label_def from_numpy_def ebind_eq_Inr split: option.splits)

lemma getitem_Inr_stats:
  "getitem ds idx g = Inr r \<Longrightarrow>
     feature_mean ds \<noteq> None \<and> feature_std ds \<noteq> None \<and>
     label_mean ds \<noteq> None \<and> label_std ds \<noteq> None"
  unfolding getitem_def Let_def
  by (auto simp: ebind_eq_Inr dest!: normalize_seq_Inr normalize_label_Inr split: prod.splits)

lemma init_eval:
  "md \<noteq> ''train'' \<Longrightarrow> 0 < length smp \<Longrightarrow>
   BadmintonDataset_init smp mn mx md R fm fs lm ls pg =
     Inr \<lparr>samples = smp, min_len = mn, max_len = mx, mode = md,
          feature_mean = fm, feature_std = fs, label_mean = lm, label_std = ls,
          noise_std_x = None, noise_std_y = None\<rparr>"
  by (simp add: BadmintonDataset_init_def)

text \<open>
  Claim C3, as stated, fails: constructing in mode \<open>test\<close> with all four statistics
  missing raises nothing and returns an object whose four statistics are \<open>None\<close>.
\<close>

theorem eval_init_missing_stats_counterexample:
  "BadmintonDataset_init [traj8] 1 10 ''test'' 5 None None None None gen0 =
     Inr \<lparr>samples = [traj8], min_len = 1, max_len = 10, mode = ''test'',
          feature_mean = None, feature_std = None, label_mean = None, label_std = None,
          noise_std_x = None, noise_std_y = None\<rparr>"
  by (simp add: BadmintonDataset_init_def)

text \<open>
  Claim C3, amended. Constructing a dataset in a mode other than \<open>train\<close> on a non-empty
  sample list never fails, whatever statistics are passed: the object holds the samples
  and the four statistics arguments exactly as given, a missing one as \<open>None\<close>, and nothing
  is computed from the samples. When one of the four is missing, every later
  \<open>__getitem__\<close> on the object raises.
\<close>

theorem eval_init_stores_arguments:
  "md \<noteq> ''train'' \<Longrightarrow> 0 < length smp \<Longrightarrow>
   (\<exists>ds. BadmintonDataset_init smp mn mx md R fm fs lm ls pg = Inr ds
      \<and> samples ds = smp
      \<and> get_norm_stats ds = (fm, fs, lm, ls)
      \<and> (fm = None \<or> fs = None \<or> lm = None \<or> ls = None
           \<longrightarrow> (\<forall>idx g. \<exists>e. getitem ds idx g = Inl e)))"
proof -
  assume md: "md \<noteq> ''train''" and smp: "0 < length smp"
  let ?ds = "\<lparr>samples = smp, min_len = mn, max_len = mx, mode = md,
          feature_mean = fm, feature_std = fs, label_mean = lm, label_std = ls,
          noise_std_x = None, noise_std_y = None\<rparr>"
  have i: "BadmintonDataset_init smp mn mx md R fm fs lm ls pg = Inr ?ds"
    using md smp by (rule init_eval)
  have "\<exists>e. getitem ?ds idx g = Inl e"
    if "fm = None \<or> fs = None \<or> lm = None \<or> ls = None" for idx g
  proof (cases "getitem ?ds idx g")
    case (Inl e)
    then show ?thesis by blast
  next
    case (Inr r)
    from getitem_Inr_stats [OF this] that show ?thesis by auto
  qed
  then have "samples ?ds = smp \<and> get_norm_stats ?ds = (fm, fs, lm, ls)
      \<and> (fm = None \<or> fs = None \<or> lm = None \<or> ls = None
           \<longrightarrow> (\<forall>idx g. \<exists>e. getitem ?ds idx g = Inl e))"
    by (simp add: get_norm_stats_def)
  with i show ?thesis
    by blast
qed

theorem eval_init_stores_arguments_witness:
  "\<exists>ds. BadmintonDataset_init [traj8] 1 10 ''test'' 5 None None None None gen0 = Inr ds
      \<and> samples ds = [traj8]
      \<and> get_norm_stats ds = (None, None, None, None)
      \<and> (\<exists>e. getitem ds 0 gen0 = Inl e)"
  using eval_init_stores_arguments [of "''test''" "[traj8]" 1 10 5 None None None None gen0]
  by auto

section \<open>The statistics of training-mode construction\<close>

lemma mean_nonneg: "(\<And>x. x \<in> set xs \<Longrightarrow> 0 \<le> x) \<Longrightarrow> 0 \<le> mean xs"
  by (simp add: mean_def sum_list_nonneg)

lemma std_nonneg: "0 \<le> std xs"
  unfolding std_def by (rule real_sqrt_ge_zero, rule mean_nonneg) auto

lemma std_axis0_nonneg: "x \<in> set (std_axis0 m) \<Longrightarrow> 0 \<le> x"
  by (auto simp: std_axis0_def std_nonneg)

lemma length_mean_axis0 [simp]: "length (mean_axis0 m) = ncols m"
  by (simp add: mean_axis0_def)

lemma length_std_axis0 [simp]: "length (std_axis0 m) = ncols m"
  by (simp add: std_axis0_def)

lemma norm_stats_Inr:
  "norm_stats smp = Inr (fm, fs, lm, ls) \<longleftrightarrow>
     (\<exists>A L. np_concatenate (map frames smp) = Inr A \<and> map_err label_row smp = Inr L
        \<and> np_stack L = Inr L
        \<and> fm = mean_axis0 A \<and> fs = map (\<lambda>x. x + float32_1e6) (std_axis0 A)
        \<and> lm = mean_axis0 L \<and> ls = map (\<lambda>x. x + float64_1e6) (std_axis0 L))"
  by (auto simp: norm_stats_def ebind_eq_Inr np_stack_def split: if_splits)

lemma init_train_ok:
  "0 < length smp \<Longrightarrow> norm_stats smp = Inr (fm, fs, lm, ls) \<Longrightarrow> 2 \<le> length ls \<Longrightarrow>
   BadmintonDataset_init smp mn mx ''train'' R a b c d pg =
     Inr \<lparr>samples = resampling_v2 smp R pg, min_len = mn, max_len = mx, mode = ''train'',
          feature_mean = Some fm, feature_std = Some fs,
          label_mean = Some lm, label_std = Some ls,
          noise_std_x = Some (ls ! 0 / 5), noise_std_y = Some (ls ! 1 / 5)\<rparr>"
  by (cases ls) (auto simp: BadmintonDataset_init_def py_get_def)

lemma init_train_Inr:
  "BadmintonDataset_init smp mn mx ''train'' R a b c d pg = Inr ds \<Longrightarrow>
     0 < length smp \<and>
     (\<exists>fm fs lm ls. norm_stats smp = Inr (fm, fs, lm, ls) \<and> 2 \<le> length ls \<and>
        ds = \<lparr>samples = resampling_v2 smp R pg, min_len = mn, max_len = mx, mode = ''train'',
               feature_mean = Some fm, feature_std = Some fs,
               label_mean = Some lm, label_std = Some ls,
               noise_std_x = Some (ls ! 0 / 5), noise_std_y = Some (ls ! 1 / 5)\<rparr>)"
  by (auto simp: BadmintonDataset_init_def ebind_eq_Inr py_get_def split: if_splits)

lemma wf_concatenate:
  assumes "smp \<noteq> []" "list_all (wf_sample F) smp"
  shows "np_concatenate (map frames smp) = Inr (concat (map frames smp))"
    and "concat (map frames smp) \<noteq> []"
    and "ncols (concat (map frames smp)) = F"
    and "list_all (\<lambda>r. length r = F) (concat (map frames smp))"
proof -
  let ?A = "concat (map frames smp)"
  have rows: "list_all (\<lambda>r. length r = F) ?A"
    using assms(2) by (auto simp: list_all_iff wf_sample_def)
  obtain s ss where smp: "smp = s # ss"
    using assms(1) by (cases smp) auto
  then have "frames s \<noteq> []"
    using assms(2) by (auto simp: wf_sample_def)
  then show ne: "?A \<noteq> []"
    using smp by simp
  then show nc: "ncols ?A = F"
    using rows by (cases ?A) (auto simp: ncols_def)
  show "list_all (\<lambda>r. length r = F) ?A" by (rule rows)
  show "np_concatenate (map frames smp) = Inr ?A"
    using rows nc assms(1) by (simp add: np_concatenate_def)
qed

lemma map_err_total:
  "(\<And>x. x \<in> set xs \<Longrightarrow> f x = Inr (h x)) \<Longrightarrow> map_err f xs = Inr (map h xs)"
  by (induction xs) simp_all

lemma label_row_wf:
  "frame_ids s \<noteq> [] \<Longrightarrow> in_int32 (drop_frame s) \<Longrightarrow> label_row s = Inr (label_vec s)"
  by (cases "frame_ids s" rule: rev_cases)
     (auto simp: label_row_def py_get_def label_vec_def nth_append sub_int32_def)

lemma norm_stats_wf:
  assumes "smp \<noteq> []" "list_all (wf_sample F) smp"
  shows "norm_stats smp =
     Inr (mean_axis0 (concat (map frames smp)),
          map (\<lambda>x. x + float32_1e6) (std_axis0 (concat (map frames smp))),
          mean_axis0 (map label_vec smp),
          map (\<lambda>x. x + float64_1e6) (std_axis0 (map label_vec smp)))"
    and "ncols (map label_vec smp) = 4"
proof -
  have ids: "frame_ids s \<noteq> []" "in_int32 (drop_frame s)" if "s \<in> set smp" for s
    using assms(2) that by (auto simp: list_all_iff wf_sample_def)
  have rows: "map_err label_row smp = Inr (map label_vec smp)"
    by (rule map_err_total) (simp add: ids label_row_wf)
  have len: "length (label_vec s) = 4" if "s \<in> set smp" for s
    using assms(2) that by (auto simp: list_all_iff wf_sample_def label_vec_def)
  obtain s ss where smp: "smp = s # ss"
    using assms(1) by (cases smp) auto
  show nc: "ncols (map label_vec smp) = 4"
    using len smp by (simp add: ncols_def)
  have "list_all (\<lambda>v. length v = length (hd (map label_vec smp))) (map label_vec smp)"
    using len smp by (simp add: list_all_iff)
  then have st: "np_stack (map label_vec smp) = Inr (map label_vec smp)"
    using assms(1) by (simp add: np_stack_def)
  show "norm_stats smp =
     Inr (mean_axis0 (concat (map frames smp)),
          map (\<lambda>x. x + float32_1e6) (std_axis0 (concat (map frames smp))),
          mean_axis0 (map label_vec smp),
          map (\<lambda>x. x + float64_1e6) (std_axis0 (map label_vec smp)))"
    by (simp add: norm_stats_def wf_concatenate(1) [OF assms] rows st)
qed

lemma init_train_wf:
  assumes "smp \<noteq> []" "list_all (wf_sample F) smp"
  shows "BadmintonDataset_init smp mn mx ''train'' R a b c d pg = Inr
     \<lparr>samples = resampling_v2 smp R pg, min_len = mn, max_len = mx, mode = ''train'',
          feature_mean = Some (mean_axis0 (concat (map frames smp))),
          feature_std = Some (map (\<lambda>x. x + float32_1e6) (std_axis0 (concat (map frames smp)))),
          label_mean = Some (mean_axis0 (map label_vec smp)),
          label_std = Some (map (\<lambda>x. x + float64_1e6) (std_axis0 (map label_vec smp))),
          noise_std_x = Some (map (\<lambda>x. x + float64_1e6) (std_axis0 (map label_vec smp)) ! 0 / 5),
          noise_std_y = Some (map (\<lambda>x. x + float64_1e6) (std_axis0 (map label_vec smp)) ! 1 / 5)\<rparr>"
  using assms(1)
  by (intro init_train_ok norm_stats_wf(1) [OF assms]) (simp_all add: norm_stats_wf(2) [OF assms])

lemma float_1e6_pos: "0 < float32_1e6" "0 < float64_1e6"
  by (simp_all add: float32_1e6_def float64_1e6_def)

lemma float_1e6_below: "float32_1e6 < 1 / 1000000" "float64_1e6 < 1 / 1000000"
  by (simp_all add: float32_1e6_def float64_1e6_def)

lemma resampling_v2_single: "resampling_v2 [s] 1 g = [s]"
  by (simp add: resampling_v2_def expand_v2_replicate shuffle_def)

lemma stats_traj_const:
  "norm_stats [traj_const] =
     Inr ([5], [float32_1e6], [100, 50, 0, 5],
          [float64_1e6, float64_1e6, float64_1e6, float64_1e6])"
proof -
  have w: "list_all (wf_sample 1) [traj_const]"
    by (simp add: wf_sample_def traj_const_def in_int32_def)
  have lv: "label_vec traj_const = [100, 50, 0, 5]"
    by (simp add: label_vec_def traj_const_def wrap32_def)
  have fm: "mean_axis0 (concat (map frames [traj_const])) = [5]"
    by (simp add: mean_axis0_def traj_const_def ncols_def column_def mean_def)
  have fs: "std_axis0 (concat (map frames [traj_const])) = [0]"
    by (simp add: std_axis0_def traj_const_def ncols_def column_def std_def mean_def)
  have lm: "mean_axis0 (map label_vec [traj_const]) = [100, 50, 0, 5]"
    by (simp add: lv mean_axis0_def ncols_def column_def mean_def
        upt_rec [of 0] upt_rec [of 1] upt_rec [of 2] upt_rec [of 3])
  have ls: "std_axis0 (map label_vec [traj_const]) = [0, 0, 0, 0]"
    by (simp add: lv std_axis0_def ncols_def column_def std_def mean_def
        upt_rec [of 0] upt_rec [of 1] upt_rec [of 2] upt_rec [of 3])
  from norm_stats_wf(1) [OF _ w] show ?thesis
    by (simp only: fm fs lm ls) simp
qed

lemma init_traj_const:
  "BadmintonDataset_init [traj_const] 10 50 ''train'' 1 None None None None gen0
     = Inr trained_const"
  using init_train_ok [OF _ stats_traj_const, of 10 50 1 None None None None gen0]
  by (simp add: resampling_v2_single trained_const_def)

text \<open>
  Claim C8, as stated, fails. On the pool of \<open>traj_const\<close> alone, whose only feature is
  constant, training-mode construction stores the feature deviation \<open>0 + 1e-6\<close> computed
  in float32, which is \<open>8796093 / 2^43\<close>, about 9.99999997e-7: it is below 1e-6.
\<close>

theorem train_std_floor_counterexample:
  "BadmintonDataset_init [traj_const] 10 50 ''train'' 1 None None None None gen0
     = Inr trained_const
   \<and> feature_std trained_const = Some [8796093 / 2 ^ 43]
   \<and> (8796093 / 2 ^ 43 :: real) < 1 / 1000000"
  using init_traj_const by (simp add: trained_const_def float32_1e6_def)

text \<open>
  Claim C8, amended. Whenever training-mode construction returns an object, every
  element of its \<open>feature_std\<close> is at least the float32 value of \<open>1e-6\<close> and every element
  of its \<open>label_std\<close> at least the float64 value of \<open>1e-6\<close>, since a standard deviation is
  not negative and that constant is added to it. Both constants are positive, so every
  element is strictly positive and no divisor of \<open>__getitem__\<close> is zero. This covers a
  dimension that is constant over the pool, whose raw deviation is zero. On a non-empty
  pool of well-formed trajectories of width \<open>F\<close> the construction does return an object,
  with \<open>F\<close> feature deviations and 4 label deviations. The deviations themselves and the
  sums are computed over the reals; rounding to nearest is monotone and both constants
  are floating point numbers, so it cannot take a sum below them.
\<close>

theorem train_std_floor:
  "(\<forall>ds. BadmintonDataset_init smp mn mx ''train'' R a b c d pg = Inr ds \<longrightarrow>
      (\<exists>fs ls. feature_std ds = Some fs \<and> label_std ds = Some ls
         \<and> list_all (\<lambda>x. float32_1e6 \<le> x) fs \<and> list_all (\<lambda>x. float64_1e6 \<le> x) ls
         \<and> list_all (\<lambda>x. 0 < x) fs \<and> list_all (\<lambda>x. 0 < x) ls
         \<and> 0 \<notin> set fs \<and> 0 \<notin> set ls))
   \<and> 0 < float32_1e6 \<and> 0 < float64_1e6
   \<and> (smp \<noteq> [] \<and> list_all (wf_sample F) smp \<longrightarrow>
      (\<exists>ds fs ls. BadmintonDataset_init smp mn mx ''train'' R a b c d pg = Inr ds
         \<and> feature_std ds = Some fs \<and> length fs = F
         \<and> label_std ds = Some ls \<and> length ls = 4))"
proof (intro conjI allI impI)
  fix ds
  assume "BadmintonDataset_init smp mn mx ''train'' R a b c d pg = Inr ds"
  from init_train_Inr [OF this] obtain fm fs lm ls where
    ns: "norm_stats smp = Inr (fm, fs, lm, ls)" and fs: "feature_std ds = Some fs"
    and ls: "label_std ds = Some ls"
    by auto
  from ns obtain A L where fsA: "fs = map (\<lambda>x. x + float32_1e6) (std_axis0 A)"
    and lsL: "ls = map (\<lambda>x. x + float64_1e6) (std_axis0 L)"
    unfolding norm_stats_Inr by blast
  have f: "float32_1e6 \<le> x" if "x \<in> set fs" for x
    using that std_axis0_nonneg [of _ A] by (auto simp: fsA)
  have l: "float64_1e6 \<le> x" if "x \<in> set ls" for x
    using that std_axis0_nonneg [of _ L] by (auto simp: lsL)
  have fp: "0 < x" if "x \<in> set fs" for x
    using f [OF that] float_1e6_pos(1) by simp
  have lp: "0 < x" if "x \<in> set ls" for x
    using l [OF that] float_1e6_pos(2) by simp
  have "0 \<notin> set fs" "0 \<notin> set ls"
    using fp [of 0] lp [of 0] by auto
  then show "\<exists>fs ls. feature_std ds = Some fs \<and> label_std ds = Some ls
         \<and> list_all (\<lambda>x. float32_1e6 \<le> x) fs \<and> list_all (\<lambda>x. float64_1e6 \<le> x) ls
         \<and> list_all (\<lambda>x. 0 < x) fs \<and> list_all (\<lambda>x. 0 < x) ls
         \<and> 0 \<notin> set fs \<and> 0 \<notin> set ls"
    using fs ls f l fp lp by (simp add: list_all_iff)
next
  show "0 < float32_1e6" "0 < float64_1e6"
    by (rule float_1e6_pos)+
next
  assume wf: "smp \<noteq> [] \<and> list_all (wf_sample F) smp"
  then have ne: "smp \<noteq> []" and w: "list_all (wf_sample F) smp"
    by simp_all
  note ns = norm_stats_wf [OF ne w]
  note init_train_wf [OF ne w, of mn mx R a b c d pg]
  then show "\<exists>ds fs ls. BadmintonDataset_init smp mn mx ''train'' R a b c d pg = Inr ds
         \<and> feature_std ds = Some fs \<and> length fs = F
         \<and> label_std ds = Some ls \<and> length ls = 4"
    by (simp add: ns(2) wf_concatenate(3) [OF ne w])
qed

text \<open>
  The pool of \<open>traj_const\<close> alone: all raw deviations are zero, and the stored ones are the
  two constants.
\<close>

theorem train_std_floor_witness:
  "BadmintonDataset_init [traj_const] 10 50 ''train'' 1 None None None None gen0
     = Inr trained_const
   \<and> feature_std trained_const = Some [float32_1e6]
   \<and> label_std trained_const = Some [float64_1e6, float64_1e6, float64_1e6, float64_1e6]
   \<and> 0 < float32_1e6 \<and> 0 < float64_1e6"
proof -
  have w: "[traj_const] \<noteq> [] \<and> list_all (wf_sample 1) [traj_const]"
    by (simp add: wf_sample_def traj_const_def in_int32_def)
  from train_std_floor [of "[traj_const]" 10 50 1 None None None None gen0 1] w init_traj_const
  show ?thesis
    by (simp add: trained_const_def)
qed

section \<open>The accessor on a window\<close>

lemma wrap32_id: "in_int32 x \<Longrightarrow> wrap32 x = x"
  by (simp add: in_int32_def wrap32_def)

lemma py_slice_nonneg:
  "a \<le> b \<Longrightarrow> b \<le> length xs \<Longrightarrow> py_slice xs (int a) (int b) = take (b - a) (drop a xs)"
  by (simp add: py_slice_def slice_bound_def Let_def min_def)

lemma py_get_last: "xs \<noteq> [] \<Longrightarrow> py_get xs (- 1) = Inr (last xs)"
  by (cases xs rule: rev_cases) (auto simp: py_get_def nth_append)

lemma py_get_nat: "i < length xs \<Longrightarrow> py_get xs (int i) = Inr (xs ! i)"
  by (simp add: py_get_def)

lemma broadcast_same:
  "length ys = length xs \<Longrightarrow> broadcast f xs ys = Inr (map (\<lambda>j. f (xs ! j) (ys ! j)) [0..<length xs])"
  by (auto simp: broadcast_def intro!: nth_equalityI)

lemma normalize_label_same:
  "length m = length v \<Longrightarrow> length s = length v \<Longrightarrow>
   normalize_label v (Some m) (Some s) = Inr (norm_vec m s v)"
  by (simp add: normalize_label_def from_numpy_def broadcast_same norm_vec_def)

lemma broadcast_rows_same:
  "list_all (\<lambda>r. length r = length v) m \<Longrightarrow>
   broadcast_rows f m v = Inr (map (\<lambda>r. map (\<lambda>j. f (r ! j) (v ! j)) [0..<length r]) m)"
  unfolding broadcast_rows_def
  by (rule map_err_total) (simp add: list_all_iff broadcast_same)

lemma normalize_seq_same:
  assumes "list_all (\<lambda>r. length r = F) seq" "length m = F" "length s = F"
  shows "normalize_seq seq (Some m) (Some s) = Inr (map (norm_vec m s) seq)"
proof -
  have 1: "broadcast_rows (\<lambda>x y. x - y) seq m =
      Inr (map (\<lambda>r. map (\<lambda>j. r ! j - m ! j) [0..<length r]) seq)"
    using assms by (intro broadcast_rows_same) simp
  have 2: "broadcast_rows (\<lambda>x y. x / y) (map (\<lambda>r. map (\<lambda>j. r ! j - m ! j) [0..<length r]) seq) s =
      Inr (map (\<lambda>r. map (\<lambda>j. r ! j / s ! j) [0..<length r])
            (map (\<lambda>r. map (\<lambda>j. r ! j - m ! j) [0..<length r]) seq))"
    using assms by (intro broadcast_rows_same) (simp add: list_all_iff)
  show ?thesis
    by (simp add: normalize_seq_def from_numpy_def 1 2 norm_vec_def)
qed

lemma getitem_at:
  assumes s: "py_get (samples ds) idx = Inr s"
    and w: "(if mode ds = ''train''
              then train_window (min_len ds) (max_len ds) (int (length (frames s))) g
              else Inr (eval_window (max_len ds) (int (length (frames s)))))
            = Inr (start_idx, int (length (frames s)) - 1)"
    and a: "slice_bound (length (frames s)) start_idx = a" "a < length (frames s)"
    and ids: "length (frame_ids s) = length (frames s)"
    and rows: "list_all (\<lambda>r. length r = F) (frames s)"
    and xyz: "length (label_xyz s) = 3"
    and dr: "in_int32 (drop_frame s)"
    and st: "feature_mean ds = Some fm" "feature_std ds = Some fs"
       "label_mean ds = Some lm" "label_std ds = Some ls"
    and len: "length fm = F" "length fs = F" "length lm = 4" "length ls = 4"
  shows "getitem ds idx g =
     Inr (map (norm_vec fm fs) (drop a (frames s)),
          int (length (frames s) - a),
          norm_vec (take 3 lm) (take 3 ls) (label_xyz s),
          (real_of_int (wrap32 (drop_frame s - last (frame_ids s))) - lm ! 3) / ls ! 3)"
proof -
  let ?n = "length (frames s)"
  have e: "int ?n - 1 + 1 = int ?n" by simp
  have hi: "slice_bound ?n (int ?n) = ?n"
    by (simp add: slice_bound_def)
  have sl: "py_slice (frames s) start_idx (int ?n) = drop a (frames s)"
    by (simp add: py_slice_def Let_def hi a(1))
  have sl2: "py_slice (frame_ids s) start_idx (int ?n) = drop a (frame_ids s)"
    by (simp add: py_slice_def Let_def ids hi a(1))
  have la: "py_get (drop a (frame_ids s)) (- 1) = Inr (last (frame_ids s))"
    using a(2) ids by (simp add: py_get_last)
  have ns: "normalize_seq (drop a (frames s)) (Some fm) (Some fs)
      = Inr (map (norm_vec fm fs) (drop a (frames s)))"
    using rows len by (intro normalize_seq_same [of F]) (auto simp: list_all_iff dest: in_set_dropD)
  let ?lab = "label_xyz s @ [real_of_int (wrap32 (drop_frame s - last (frame_ids s)))]"
  have nl: "normalize_label ?lab (Some lm) (Some ls) = Inr (norm_vec lm ls ?lab)"
    using xyz len by (intro normalize_label_same) simp_all
  have l4: "length (norm_vec lm ls ?lab) = 4"
    using xyz by (simp add: norm_vec_def)
  have g3: "py_get (norm_vec lm ls ?lab) 3 = Inr (norm_vec lm ls ?lab ! 3)"
    using py_get_nat [of 3 "norm_vec lm ls ?lab"] l4 by simp
  have v3: "norm_vec lm ls ?lab ! 3
      = (real_of_int (wrap32 (drop_frame s - last (frame_ids s))) - lm ! 3) / ls ! 3"
    using xyz by (simp add: norm_vec_def nth_append)
  have t3: "py_slice (norm_vec lm ls ?lab) 0 3 = norm_vec (take 3 lm) (take 3 ls) (label_xyz s)"
    using py_slice_nonneg [of 0 3 "norm_vec lm ls ?lab"] l4 xyz len
    by (auto simp: norm_vec_def take_map nth_append intro!: nth_equalityI)
  have sb: "sub_int32 (drop_frame s) (last (frame_ids s))
      = Inr (wrap32 (drop_frame s - last (frame_ids s)))"
    using dr by (simp add: sub_int32_def)
  show ?thesis
    unfolding getitem_def Let_def
    by (simp add: s w e sl sl2 la sb st ns nl g3 v3 t3 del: of_int_diff)
qed

lemma getitem_window:
  assumes s: "py_get (samples ds) idx = Inr s"
    and w: "(if mode ds = ''train''
              then train_window (min_len ds) (max_len ds) (int (length (frames s))) g
              else Inr (eval_window (max_len ds) (int (length (frames s)))))
            = Inr (int a, int (length (frames s)) - 1)"
    and a: "a < length (frames s)"
    and ids: "length (frame_ids s) = length (frames s)"
    and rows: "list_all (\<lambda>r. length r = F) (frames s)"
    and xyz: "length (label_xyz s) = 3"
    and dr: "in_int32 (drop_frame s)"
    and st: "feature_mean ds = Some fm" "feature_std ds = Some fs"
       "label_mean ds = Some lm" "label_std ds = Some ls"
    and len: "length fm = F" "length fs = F" "length lm = 4" "length ls = 4"
  shows "getitem ds idx g =
     Inr (map (norm_vec fm fs) (drop a (frames s)),
          int (length (frames s) - a),
          norm_vec (take 3 lm) (take 3 ls) (label_xyz s),
          (real_of_int (wrap32 (drop_frame s - last (frame_ids s))) - lm ! 3) / ls ! 3)"
proof -
  have "slice_bound (length (frames s)) (int a) = a"
    using a by (simp add: slice_bound_def)
  from getitem_at [OF s w this a ids rows xyz dr st len] show ?thesis .
qed

text \<open>
  The evaluation branch on a trajectory shorter than \<open>max_len\<close> and longer than half of
  it: \<open>start_idx\<close> is negative, the slice counts it from the end, and the access returns
  the last \<open>max_len - total_len\<close> frames.
\<close>

lemma getitem_eval_short:
  assumes md: "mode ds \<noteq> ''train''"
    and s: "py_get (samples ds) idx = Inr s"
    and mx: "int (length (frames s)) < max_len ds" "max_len ds < 2 * int (length (frames s))"
    and ids: "length (frame_ids s) = length (frames s)"
    and rows: "list_all (\<lambda>r. length r = F) (frames s)"
    and xyz: "length (label_xyz s) = 3"
    and dr: "in_int32 (drop_frame s)"
    and st: "feature_mean ds = Some fm" "feature_std ds = Some fs"
       "label_mean ds = Some lm" "label_std ds = Some ls"
    and len: "length fm = F" "length fs = F" "length lm = 4" "length ls = 4"
  shows "getitem ds idx g =
     Inr (map (norm_vec fm fs) (drop (2 * length (frames s) - nat (max_len ds)) (frames s)),
          max_len ds - int (length (frames s)),
          norm_vec (take 3 lm) (take 3 ls) (label_xyz s),
          (real_of_int (wrap32 (drop_frame s - last (frame_ids s))) - lm ! 3) / ls ! 3)"
proof -
  let ?n = "length (frames s)"
  let ?a = "2 * ?n - nat (max_len ds)"
  have w: "(if mode ds = ''train''
              then train_window (min_len ds) (max_len ds) (int ?n) g
              else Inr (eval_window (max_len ds) (int ?n)))
            = Inr (int ?n - max_len ds, int ?n - 1)"
    using md by (simp add: eval_window_def)
  have a: "slice_bound ?n (int ?n - max_len ds) = ?a" "?a < ?n"
    using mx by (auto simp: slice_bound_def)
  have l: "int (?n - ?a) = max_len ds - int ?n"
    using mx by auto
  from getitem_at [OF s w a ids rows xyz dr st len] l show ?thesis
    by simp
qed

section \<open>The accessor in evaluation mode\<close>




text \<open>
  Claim C9 fails on the code. In mode \<open>test\<close> with \<open>max_len = 10\<close>, the access to a
  trajectory of 8 frames computes \<open>start_idx = -2\<close>, and the slice \<open>frames[-2:8]\<close> is the
  last two frames: the access raises nothing and returns a window of length 2, which is
  neither the full trajectory nor an error. It is the case \<open>total_len = 8\<close>,
  \<open>max_len = 10\<close> of the lemma above. The training branch clamps \<open>seq_len\<close> to
  \<open>total_len\<close>; this branch does not.
\<close>

theorem getitem_eval_short_trajectory:
  "BadmintonDataset_init [traj8] 1 10 ''test'' 5 (Some [0]) (Some [1])
     (Some [0, 0, 0, 0]) (Some [1, 1, 1, 1]) gen0 = Inr eval8
   \<and> getitem eval8 0 gen0 = Inr ([[6], [7]], 2, [1, 2, 3], 5)"
  by (simp add: BadmintonDataset_init_def getitem_def eval8_def traj8_def py_get_def
      eval_window_def py_slice_def slice_bound_def normalize_seq_def normalize_label_def
      from_numpy_def broadcast_rows_def broadcast_def Let_def sub_int32_def in_int32_def
      wrap32_def)

section \<open>The accessor in training mode\<close>

lemma randint_range:
  "lo < hi \<Longrightarrow> \<exists>v g'. randint lo hi g = Inr (v, g') \<and> lo \<le> v \<and> v < hi"
proof -
  assume h: "lo < hi"
  have "int (g 0 mod nat (hi - lo)) < hi - lo"
    using h by (metis diff_gt_0_iff_gt int_nat_eq less_le mod_less_divisor of_nat_less_iff zero_less_nat_eq zless_nat_conj)
  then show ?thesis
    using h by (simp add: randint_def)
qed

lemma randint_value:
  "lo < hi \<Longrightarrow> randint lo hi g = Inr (lo + int (g 0 mod nat (hi - lo)), g \<circ> Suc)"
  by (simp add: randint_def)

lemma randint_onto:
  assumes "lo \<le> v" "v < hi"
  shows "randint lo hi (\<lambda>n. nat (v - lo)) = Inr (v, (\<lambda>n. nat (v - lo)) \<circ> Suc)"
proof -
  have "nat (v - lo) mod nat (hi - lo) = nat (v - lo)"
    using assms by (intro mod_less) simp
  then show ?thesis
    using assms by (simp add: randint_def)
qed

lemma train_window_draw:
  "randint mn (mx + 1) g = Inr (drawn, g') \<Longrightarrow>
   train_window mn mx n g = Inr (n - 1 - (if drawn > n then n else drawn) + 1, n - 1)"
  by (simp add: train_window_def Let_def)

lemma train_window_range:
  assumes "mn \<le> mx"
  shows "\<exists>drawn. randint mn (mx + 1) g = Inr (drawn, g \<circ> Suc) \<and> mn \<le> drawn \<and> drawn \<le> mx \<and>
     train_window mn mx n g = Inr (n - 1 - (if drawn > n then n else drawn) + 1, n - 1)"
proof -
  from randint_range [of mn "mx + 1" g] assms
  obtain v g' where r: "randint mn (mx + 1) g = Inr (v, g')" and v: "mn \<le> v" "v \<le> mx"
    by auto
  from r randint_value [of mn "mx + 1" g] assms have "g' = g \<circ> Suc"
    by simp
  with r v train_window_draw [OF r, of n] show ?thesis
    by blast
qed

lemma py_get_in_range:
  "0 \<le> i \<Longrightarrow> i < int (length xs) \<Longrightarrow> py_get xs i = Inr (xs ! nat i) \<and> xs ! nat i \<in> set xs"
  by (simp add: py_get_def)

lemma length_resampling_v2: "length (resampling_v2 smp R g) = nat R * length smp"
  using arg_cong [OF mset_resampling_v2 [of smp R g], of size] by simp

text \<open>
  Claim C4. Let training-mode construction on a pool of well-formed trajectories (at
  least one frame each) with \<open>1 <= min_len <= max_len\<close> return the object \<open>ds\<close>, and let
  \<open>idx\<close> be an index of it. Then \<open>__getitem__\<close> raises nothing. The sample is one of the
  pool; the length is the value that \<open>np.random.randint(min_len, max_len + 1)\<close> draws from
  the generator, a value of \<open>[min_len, max_len]\<close>, clamped to \<open>total_len\<close>;
  \<open>end_idx = total_len - 1\<close> and \<open>start_idx = end_idx - seq_len + 1\<close>, so that
  \<open>0 <= start_idx <= end_idx\<close>; the result is the normalized window
  \<open>frames[start_idx:]\<close>, its length \<open>seq_len\<close>, and the normalized labels. When
  \<open>total_len <= min_len\<close> the window is the whole trajectory. Every length of
  \<open>[min_len, max_len]\<close> is the draw of some generator. That the draw is uniform is not
  part of the model.
\<close>

theorem getitem_train_window:
  assumes init: "BadmintonDataset_init smp mn mx ''train'' R a b c d pg = Inr ds"
    and wf: "list_all (wf_sample F) smp"
    and len: "1 \<le> mn" "mn \<le> mx"
    and idx: "0 \<le> idx" "idx < int (len_dataset ds)"
  shows "(\<exists>s drawn seq_len start_idx fm fs lm ls.
      py_get (samples ds) idx = Inr s \<and> s \<in> set smp
    \<and> randint mn (mx + 1) g = Inr (drawn, g \<circ> Suc)
    \<and> mn \<le> drawn \<and> drawn \<le> mx
    \<and> seq_len = (if drawn > int (length (frames s)) then int (length (frames s)) else drawn)
    \<and> start_idx = int (length (frames s)) - 1 - seq_len + 1
    \<and> train_window mn mx (int (length (frames s))) g = Inr (start_idx, int (length (frames s)) - 1)
    \<and> 0 \<le> start_idx \<and> start_idx \<le> int (length (frames s)) - 1
    \<and> get_norm_stats ds = (Some fm, Some fs, Some lm, Some ls)
    \<and> getitem ds idx g =
         Inr (map (norm_vec fm fs) (drop (nat start_idx) (frames s)),
              seq_len,
              norm_vec (take 3 lm) (take 3 ls) (label_xyz s),
              (real_of_int (wrap32 (drop_frame s - last (frame_ids s))) - lm ! 3) / ls ! 3)
    \<and> (int (length (frames s)) \<le> mn \<longrightarrow>
          start_idx = 0 \<and> seq_len = int (length (frames s))
          \<and> drop (nat start_idx) (frames s) = frames s))
   \<and> (\<forall>v. mn \<le> v \<and> v \<le> mx \<longrightarrow>
         (\<exists>g'. randint mn (mx + 1) g' = Inr (v, g' \<circ> Suc)))"
proof
  show "\<forall>v. mn \<le> v \<and> v \<le> mx \<longrightarrow> (\<exists>g'. randint mn (mx + 1) g' = Inr (v, g' \<circ> Suc))"
  proof (intro allI impI)
    fix v
    assume "mn \<le> v \<and> v \<le> mx"
    then have "randint mn (mx + 1) (\<lambda>n. nat (v - mn)) = Inr (v, (\<lambda>n. nat (v - mn)) \<circ> Suc)"
      by (intro randint_onto) simp_all
    then show "\<exists>g'. randint mn (mx + 1) g' = Inr (v, g' \<circ> Suc)"
      by (rule exI [of _ "\<lambda>n. nat (v - mn)"])
  qed
next
  from init_train_Inr [OF init] have ne: "smp \<noteq> []"
    by auto
  note i = init_train_wf [OF ne wf, of mn mx R a b c d pg]
  let ?fm = "mean_axis0 (concat (map frames smp))"
  let ?fs = "map (\<lambda>x. x + float32_1e6) (std_axis0 (concat (map frames smp)))"
  let ?lm = "mean_axis0 (map label_vec smp)"
  let ?ls = "map (\<lambda>x. x + float64_1e6) (std_axis0 (map label_vec smp))"
  have ds: "samples ds = resampling_v2 smp R pg" "min_len ds = mn" "max_len ds = mx"
    "mode ds = ''train''" "feature_mean ds = Some ?fm" "feature_std ds = Some ?fs"
    "label_mean ds = Some ?lm" "label_std ds = Some ?ls"
    using init i by auto
  have lens: "length ?fm = F" "length ?fs = F" "length ?lm = 4" "length ?ls = 4"
    using wf_concatenate(3) [OF ne wf] norm_stats_wf(2) [OF ne wf] by simp_all
  let ?s = "samples ds ! nat idx"
  have s: "py_get (samples ds) idx = Inr ?s" and "?s \<in> set (samples ds)"
    using py_get_in_range [of idx "samples ds"] idx by (simp_all add: len_dataset_def)
  then have mem: "?s \<in> set smp"
    using mset_resampling_v2 [of smp R pg] ds(1)
    by (metis in_repeat_mset set_mset_mset)
  then have w: "wf_sample F ?s"
    using wf by (simp add: list_all_iff)
  let ?n = "length (frames ?s)"
  from train_window_range [OF len(2), of g "int ?n"] obtain drawn where
    rd: "randint mn (mx + 1) g = Inr (drawn, g \<circ> Suc)"
    and dr: "mn \<le> drawn" "drawn \<le> mx"
    and tw: "train_window mn mx (int ?n) g
        = Inr (int ?n - 1 - (if drawn > int ?n then int ?n else drawn) + 1, int ?n - 1)"
    by blast
  define seq_len where "seq_len = (if drawn > int ?n then int ?n else drawn)"
  define start_idx where "start_idx = int ?n - 1 - seq_len + 1"
  have n1: "1 \<le> ?n"
    using w by (simp add: wf_sample_def)
  have sq: "1 \<le> seq_len" "seq_len \<le> int ?n"
    using dr len n1 by (auto simp: seq_len_def)
  have st: "0 \<le> start_idx" "start_idx \<le> int ?n - 1" "int (nat start_idx) = start_idx"
    "nat start_idx < ?n" "int (?n - nat start_idx) = seq_len"
    using sq by (auto simp: start_idx_def)
  have tw': "train_window mn mx (int ?n) g = Inr (int (nat start_idx), int ?n - 1)"
    using tw st(3) by (simp add: start_idx_def seq_len_def)
  have g: "getitem ds idx g =
     Inr (map (norm_vec ?fm ?fs) (drop (nat start_idx) (frames ?s)), int (?n - nat start_idx),
          norm_vec (take 3 ?lm) (take 3 ?ls) (label_xyz ?s),
          (real_of_int (wrap32 (drop_frame ?s - last (frame_ids ?s))) - ?lm ! 3) / ?ls ! 3)"
    using w tw' lens
    by (intro getitem_window [OF s _ st(4) _ _ _ _ ds(5-8)])
       (simp_all add: ds wf_sample_def)
  have whole: "start_idx = 0 \<and> seq_len = int ?n \<and> drop (nat start_idx) (frames ?s) = frames ?s"
    if "int ?n \<le> mn"
    using that dr by (auto simp: start_idx_def seq_len_def)
  show "\<exists>s drawn seq_len start_idx fm fs lm ls.
      py_get (samples ds) idx = Inr s \<and> s \<in> set smp
    \<and> randint mn (mx + 1) g = Inr (drawn, g \<circ> Suc)
    \<and> mn \<le> drawn \<and> drawn \<le> mx
    \<and> seq_len = (if drawn > int (length (frames s)) then int (length (frames s)) else drawn)
    \<and> start_idx = int (length (frames s)) - 1 - seq_len + 1
    \<and> train_window mn mx (int (length (frames s))) g = Inr (start_idx, int (length (frames s)) - 1)
    \<and> 0 \<le> start_idx \<and> start_idx \<le> int (length (frames s)) - 1
    \<and> get_norm_stats ds = (Some fm, Some fs, Some lm, Some ls)
    \<and> getitem ds idx g =
         Inr (map (norm_vec fm fs) (drop (nat start_idx) (frames s)),
              seq_len,
              norm_vec (take 3 lm) (take 3 ls) (label_xyz s),
              (real_of_int (wrap32 (drop_frame s - last (frame_ids s))) - lm ! 3) / ls ! 3)
    \<and> (int (length (frames s)) \<le> mn \<longrightarrow>
          start_idx = 0 \<and> seq_len = int (length (frames s))
          \<and> drop (nat start_idx) (frames s) = frames s)"
  proof (rule exI [of _ ?s], rule exI [of _ drawn], rule exI [of _ seq_len],
      rule exI [of _ start_idx], rule exI [of _ ?fm], rule exI [of _ ?fs],
      rule exI [of _ ?lm], rule exI [of _ ?ls], intro conjI)
    show "py_get (samples ds) idx = Inr ?s" by (rule s)
    show "?s \<in> set smp" by (rule mem)
    show "randint mn (mx + 1) g = Inr (drawn, g \<circ> Suc)" by (rule rd)
    show "mn \<le> drawn" by (rule dr)
    show "drawn \<le> mx" by (rule dr)
    show "seq_len = (if drawn > int ?n then int ?n else drawn)" by (rule seq_len_def)
    show "start_idx = int ?n - 1 - seq_len + 1" by (rule start_idx_def)
    show "train_window mn mx (int ?n) g = Inr (start_idx, int ?n - 1)"
      using tw' st(3) by simp
    show "0 \<le> start_idx" by (rule st)
    show "start_idx \<le> int ?n - 1" by (rule st)
    show "get_norm_stats ds = (Some ?fm, Some ?fs, Some ?lm, Some ?ls)"
      by (simp add: get_norm_stats_def ds)
    show "getitem ds idx g =
       Inr (map (norm_vec ?fm ?fs) (drop (nat start_idx) (frames ?s)), seq_len,
            norm_vec (take 3 ?lm) (take 3 ?ls) (label_xyz ?s),
            (real_of_int (wrap32 (drop_frame ?s - last (frame_ids ?s))) - ?lm ! 3) / ?ls ! 3)"
      using g st(5) by simp
    show "int ?n \<le> mn \<longrightarrow>
          start_idx = 0 \<and> seq_len = int ?n \<and> drop (nat start_idx) (frames ?s) = frames ?s"
      using whole by blast
  qed
qed

text \<open>
  The pool of \<open>traj8\<close> alone with \<open>min_len = 3\<close> and \<open>max_len = 12\<close>. A generator whose first
  draw is 2 gives the length 5 and the window \<open>[3, 7]\<close>; one whose first draw is 8 gives the
  length 11, clamped to the 8 frames of the trajectory, and the window \<open>[0, 7]\<close>.
\<close>

theorem getitem_train_window_witness:
  "\<exists>ds fm fs r r'.
       BadmintonDataset_init [traj8] 3 12 ''train'' 1 None None None None gen0 = Inr ds
     \<and> feature_mean ds = Some fm \<and> feature_std ds = Some fs
     \<and> randint 3 (12 + 1) (gen_from 2) = Inr (5, gen_from 2 \<circ> Suc)
     \<and> train_window 3 12 8 (gen_from 2) = Inr (3, 7)
     \<and> getitem ds 0 (gen_from 2) = Inr r
     \<and> fst r = map (norm_vec fm fs) [[3], [4], [5], [6], [7]] \<and> fst (snd r) = 5
     \<and> randint 3 (12 + 1) (gen_from 8) = Inr (11, gen_from 8 \<circ> Suc)
     \<and> train_window 3 12 8 (gen_from 8) = Inr (0, 7)
     \<and> getitem ds 0 (gen_from 8) = Inr r'
     \<and> fst r' = map (norm_vec fm fs) (frames traj8) \<and> fst (snd r') = 8"
proof -
  have wf: "list_all (wf_sample 1) [traj8]"
    by (simp add: wf_sample_def traj8_def in_int32_def)
  from init_train_wf [OF _ this, of 3 12 1 None None None None gen0]
  obtain ds where
    i: "BadmintonDataset_init [traj8] 3 12 ''train'' 1 None None None None gen0 = Inr ds"
    by auto
  from init_train_Inr [OF i] have "samples ds = resampling_v2 [traj8] 1 gen0"
    by auto
  then have n: "len_dataset ds = 1"
    by (simp add: len_dataset_def length_resampling_v2)
  have l8: "length (frames traj8) = 8" and d3: "drop 3 (frames traj8) = [[3], [4], [5], [6], [7]]"
    by (simp_all add: traj8_def)
  have r2: "randint 3 (12 + 1) (gen_from 2) = Inr (5, gen_from 2 \<circ> Suc)"
    and r8: "randint 3 (12 + 1) (gen_from 8) = Inr (11, gen_from 8 \<circ> Suc)"
    by (simp_all add: randint_def gen_from_def)
  from getitem_train_window [OF i wf, of 0 "gen_from 2"] n
  obtain s drawn seq_len start_idx fm fs lm ls where
    s: "s \<in> set [traj8]"
    and rd: "randint 3 (12 + 1) (gen_from 2) = Inr (drawn, gen_from 2 \<circ> Suc)"
    and sq: "seq_len = (if drawn > int (length (frames s)) then int (length (frames s)) else drawn)"
    and si: "start_idx = int (length (frames s)) - 1 - seq_len + 1"
    and tw: "train_window 3 12 (int (length (frames s))) (gen_from 2)
        = Inr (start_idx, int (length (frames s)) - 1)"
    and st: "get_norm_stats ds = (Some fm, Some fs, Some lm, Some ls)"
    and g: "getitem ds 0 (gen_from 2) =
         Inr (map (norm_vec fm fs) (drop (nat start_idx) (frames s)), seq_len,
              norm_vec (take 3 lm) (take 3 ls) (label_xyz s),
              (real_of_int (wrap32 (drop_frame s - last (frame_ids s))) - lm ! 3) / ls ! 3)"
    by auto
  from s have s8: "s = traj8"
    by simp
  from rd r2 have "drawn = 5"
    by simp
  with sq si l8 s8 have v: "seq_len = 5" "start_idx = 3"
    by simp_all
  from getitem_train_window [OF i wf, of 0 "gen_from 8"] n
  obtain s' drawn' seq_len' start_idx' fm' fs' lm' ls' where
    s': "s' \<in> set [traj8]"
    and rd': "randint 3 (12 + 1) (gen_from 8) = Inr (drawn', gen_from 8 \<circ> Suc)"
    and sq': "seq_len' = (if drawn' > int (length (frames s')) then int (length (frames s')) else drawn')"
    and si': "start_idx' = int (length (frames s')) - 1 - seq_len' + 1"
    and tw': "train_window 3 12 (int (length (frames s'))) (gen_from 8)
        = Inr (start_idx', int (length (frames s')) - 1)"
    and st': "get_norm_stats ds = (Some fm', Some fs', Some lm', Some ls')"
    and g': "getitem ds 0 (gen_from 8) =
         Inr (map (norm_vec fm' fs') (drop (nat start_idx') (frames s')), seq_len',
              norm_vec (take 3 lm') (take 3 ls') (label_xyz s'),
              (real_of_int (wrap32 (drop_frame s' - last (frame_ids s'))) - lm' ! 3) / ls' ! 3)"
    by auto
  from s' have s8': "s' = traj8"
    by simp
  from rd' r8 have "drawn' = 11"
    by simp
  with sq' si' l8 s8' have v': "seq_len' = 8" "start_idx' = 0"
    by simp_all
  from st st' have e: "fm' = fm" "fs' = fs" and f: "feature_mean ds = Some fm" "feature_std ds = Some fs"
    by (simp_all add: get_norm_stats_def)
  show ?thesis
    using i f r2 r8 tw tw' g g' by (simp add: s8 s8' v v' e l8 d3) 
qed

section \<open>The collator\<close>

lemma foldl_max_ge: "a \<le> foldl max a (xs :: int list)"
  by (induction xs arbitrary: a) (auto intro: order_trans [OF max.cobounded1])

lemma foldl_max_upper: "x \<in> set xs \<Longrightarrow> x \<le> foldl max a (xs :: int list)"
  by (induction xs arbitrary: a) (auto intro: order_trans [OF max.cobounded2 foldl_max_ge])

lemma foldl_max_mem: "foldl max a (xs :: int list) \<in> insert a (set xs)"
  by (induction xs arbitrary: a) (auto simp: max_def)

lemma max_list_ge: "x \<in> set ls \<Longrightarrow> x \<le> max_list ls"
  by (cases ls) (auto simp: max_list_def foldl_max_ge foldl_max_upper)

lemma max_list_mem: "ls \<noteq> [] \<Longrightarrow> max_list ls \<in> set ls"
  using foldl_max_mem [of "hd ls" "tl ls"] by (cases ls) (auto simp: max_list_def)

lemma pad_item_wf:
  assumes "l = int (length seq)" "1 \<le> length seq" "list_all (\<lambda>r. length r = F) seq" "l \<le> mxl"
  shows "pad_item F mxl (seq, l) =
     Inr (replicate (nat (mxl - l)) (replicate F 0) @ seq,
          replicate (nat (mxl - l)) False @ replicate (nat l) True)"
proof -
  let ?k = "int (length seq)"
  have b: "slice_bound (nat mxl) (mxl - ?k) = nat (mxl - ?k)"
    using assms by (auto simp: slice_bound_def)
  have d: "nat mxl - nat (mxl - ?k) = length seq"
    using assms by auto
  have m: "replicate (slice_bound (nat mxl) (mxl - ?k)) False
        @ replicate (nat mxl - slice_bound (nat mxl) (mxl - ?k)) True
      = replicate (nat (mxl - ?k)) False @ replicate (length seq) True"
    by (simp only: b d)
  have "pad_item F mxl (seq, ?k) =
     Inr (replicate (nat (mxl - ?k)) (replicate F 0) @ seq,
          replicate (nat (mxl - ?k)) False @ replicate (nat ?k) True)"
  proof (cases "mxl - ?k > 0")
    case True
    then show ?thesis
      using assms(3,4) m unfolding pad_item_def Let_def by (simp del: replicate_eq_replicate)
  next
    case False
    then have e: "mxl = ?k"
      using assms by simp
    show ?thesis
      unfolding e by (simp add: pad_item_def Let_def slice_bound_def)
  qed
  then show ?thesis
    by (simp add: assms(1))
qed

lemma map_err_map:
  "(\<And>x. x \<in> set xs \<Longrightarrow> f (h x) = Inr (k x)) \<Longrightarrow> map_err f (map h xs) = Inr (map k xs)"
  by (induction xs) simp_all

lemma wf_itemD:
  assumes "wf_item F b"
  shows "fst (snd b) = int (length (fst b))" "1 \<le> length (fst b)"
    "list_all (\<lambda>r. length r = F) (fst b)" "length (fst (snd (snd b))) = 3"
  using assms by (cases b; simp add: wf_item_def)+

lemma stack_by_const:
  "xs \<noteq> [] \<Longrightarrow> (\<And>x. x \<in> set xs \<Longrightarrow> shp x = c) \<Longrightarrow> stack_by shp xs = Inr xs"
  by (cases xs) (auto simp: stack_by_def list_all_iff)

lemma ncols_padded:
  "seq \<noteq> [] \<Longrightarrow> list_all (\<lambda>r. length r = F) seq \<Longrightarrow> ncols (replicate k (replicate F 0) @ seq) = F"
  by (cases k; cases seq) (auto simp: ncols_def)

text \<open>
  Claim C5. For a non-empty batch of well-formed examples of width \<open>F\<close>, let \<open>maxL\<close> be the
  greatest of the lengths. \<open>collate_fn_dynamic\<close> raises nothing and returns, in batch order:
  for each example its sequence behind \<open>maxL - length\<close> all-zero frames, the lengths, for
  each example the mask of \<open>maxL - length\<close> times \<open>False\<close> followed by \<open>length\<close> times \<open>True\<close>,
  the landing points and the time labels. Every padded sequence has \<open>maxL\<close> frames of width
  \<open>F\<close> and every mask \<open>maxL\<close> entries, so the stacked shapes are (B, maxL, F) and (B, maxL);
  the mask of an example of length \<open>maxL\<close> is all \<open>True\<close>.
\<close>

theorem collate_left_pads:
  assumes ne: "batch \<noteq> []" and wf: "list_all (wf_item F) batch"
  shows "\<exists>maxL. maxL = max_list (map (\<lambda>b. fst (snd b)) batch)
     \<and> maxL \<in> set (map (\<lambda>b. fst (snd b)) batch)
     \<and> (\<forall>b \<in> set batch. fst (snd b) \<le> maxL)
     \<and> collate_fn_dynamic batch =
         Inr (map (\<lambda>b. replicate (nat (maxL - fst (snd b))) (replicate F 0) @ fst b) batch,
              map (\<lambda>b. fst (snd b)) batch,
              map (\<lambda>b. replicate (nat (maxL - fst (snd b))) False @ replicate (nat (fst (snd b))) True) batch,
              map (\<lambda>b. fst (snd (snd b))) batch,
              map (\<lambda>b. snd (snd (snd b))) batch)
     \<and> (\<forall>b \<in> set batch.
           length (replicate (nat (maxL - fst (snd b))) (replicate F 0) @ fst b) = nat maxL
         \<and> list_all (\<lambda>r. length r = F) (replicate (nat (maxL - fst (snd b))) (replicate F 0) @ fst b)
         \<and> length (replicate (nat (maxL - fst (snd b))) False @ replicate (nat (fst (snd b))) True) = nat maxL
         \<and> (fst (snd b) = maxL \<longrightarrow>
              replicate (nat (maxL - fst (snd b))) False @ replicate (nat (fst (snd b))) True
                = replicate (nat maxL) True))"
proof -
  let ?len = "\<lambda>b :: real list list \<times> int \<times> real list \<times> real. fst (snd b)"
  let ?ls = "map ?len batch"
  define maxL where "maxL = max_list ?ls"
  let ?pad = "\<lambda>b. replicate (nat (maxL - ?len b)) (replicate F 0) @ fst b"
  let ?mask = "\<lambda>b. replicate (nat (maxL - ?len b)) False @ replicate (nat (?len b)) True"
  have item: "?len b = int (length (fst b))" "1 \<le> length (fst b)"
    "list_all (\<lambda>r. length r = F) (fst b)" "length (fst (snd (snd b))) = 3"
    if "b \<in> set batch" for b
    using wf that wf_itemD [of F b] by (simp_all add: list_all_iff)
  have mem: "maxL \<in> set ?ls"
    unfolding maxL_def using ne by (intro max_list_mem) simp
  have le: "?len b \<le> maxL" if "b \<in> set batch" for b
    unfolding maxL_def using that by (intro max_list_ge) simp
  have fd: "ncols (hd (map fst batch)) = F"
  proof -
    obtain b bs where bb: "batch = b # bs"
      using ne by (cases batch) auto
    then show ?thesis
      using item [of b] by (cases "fst b") (auto simp: ncols_def)
  qed
  have z: "zip (map fst batch) ?ls = map (\<lambda>b. (fst b, ?len b)) batch"
    by (simp add: zip_map_map zip_same_conv_map)
  have pi: "pad_item F maxL (fst b, ?len b) = Inr (?pad b, ?mask b)" if "b \<in> set batch" for b
    using item [OF that] le [OF that] by (intro pad_item_wf) simp_all
  have me: "map_err (pad_item F maxL) (zip (map fst batch) ?ls)
      = Inr (map (\<lambda>b. (?pad b, ?mask b)) batch)"
    unfolding z by (rule map_err_map) (rule pi)
  have shp: "length (?pad b) = nat maxL" "list_all (\<lambda>r. length r = F) (?pad b)"
    "length (?mask b) = nat maxL" "ncols (?pad b) = F"
    if "b \<in> set batch" for b
  proof -
    note i = item [OF that] le [OF that]
    have "fst b \<noteq> []"
      using i(2) by auto
    then show "ncols (?pad b) = F"
      using i(3) by (rule ncols_padded)
    show "length (?pad b) = nat maxL" "length (?mask b) = nat maxL"
      using i by auto
    show "list_all (\<lambda>r. length r = F) (?pad b)"
      using i(3) by (auto simp: list_all_iff)
  qed
  have s1: "stack_by shape2 (map ?pad batch) = Inr (map ?pad batch)"
    using ne shp by (intro stack_by_const [of _ _ "(nat maxL, F)"]) (auto simp: shape2_def)
  have s2: "stack_by length (map ?mask batch) = Inr (map ?mask batch)"
    using ne shp(3) by (intro stack_by_const [of _ _ "nat maxL"]) auto
  have s3: "stack_by length (map (\<lambda>b. fst (snd (snd b))) batch) = Inr (map (\<lambda>b. fst (snd (snd b))) batch)"
    using ne item(4) by (intro stack_by_const [of _ _ 3]) auto
  have col: "collate_fn_dynamic batch =
         Inr (map ?pad batch, ?ls, map ?mask batch,
              map (\<lambda>b. fst (snd (snd b))) batch, map (\<lambda>b. snd (snd (snd b))) batch)"
    using ne by (simp add: collate_fn_dynamic_def Let_def fd maxL_def [symmetric] me comp_def s1 s2 s3)
  have full: "?mask b = replicate (nat maxL) True" if "?len b = maxL" for b
    using that by simp
  show ?thesis
  proof (rule exI [of _ maxL], intro conjI ballI)
    show "maxL = max_list ?ls" by (rule maxL_def)
    show "maxL \<in> set ?ls" by (rule mem)
    show "?len b \<le> maxL" if "b \<in> set batch" for b by (rule le [OF that])
    show "collate_fn_dynamic batch =
         Inr (map ?pad batch, ?ls, map ?mask batch,
              map (\<lambda>b. fst (snd (snd b))) batch, map (\<lambda>b. snd (snd (snd b))) batch)"
      by (rule col)
    show "length (?pad b) = nat maxL" if "b \<in> set batch" for b by (rule shp [OF that])
    show "list_all (\<lambda>r. length r = F) (?pad b)" if "b \<in> set batch" for b by (rule shp [OF that])
    show "length (?mask b) = nat maxL" if "b \<in> set batch" for b by (rule shp [OF that])
    show "?len b = maxL \<longrightarrow> ?mask b = replicate (nat maxL) True" if "b \<in> set batch" for b
      using full by blast
  qed
qed

text \<open>The batch of lengths 3, 5 and 2: \<open>maxL = 5\<close>, and the second mask is all \<open>True\<close>.\<close>

theorem collate_left_pads_witness:
  "collate_fn_dynamic batch352 =
     Inr ([[[0, 0], [0, 0], [1, 2], [3, 4], [5, 6]],
           [[1, 1], [2, 2], [3, 3], [4, 4], [5, 5]],
           [[0, 0], [0, 0], [0, 0], [9, 8], [7, 6]]],
          [3, 5, 2],
          [[False, False, True, True, True],
           [True, True, True, True, True],
           [False, False, False, True, True]],
          [[1, 2, 3], [4, 5, 6], [7, 8, 9]],
          [7, 8, 9])"
proof -
  have wf: "list_all (wf_item 2) batch352"
    by (simp add: batch352_def wf_item_def)
  have ne: "batch352 \<noteq> []"
    by (simp add: batch352_def)
  have mx: "max_list (map (\<lambda>b. fst (snd b)) batch352) = 5"
    by (simp add: batch352_def max_list_def)
  from collate_left_pads [OF ne wf] mx show ?thesis
    by (simp add: batch352_def eval_nat_numeral)
qed

section \<open>Statistics of the replicated pool\<close>

lemma sum_mset_repeat: "sum_mset (repeat_mset n M) = of_nat n * (sum_mset M :: real)"
  by (induction n) (simp_all add: algebra_simps)

lemma image_mset_repeat: "image_mset f (repeat_mset n M) = repeat_mset n (image_mset f M)"
  by (induction n) simp_all

lemma sum_mset_repeat_mset: "sum_mset (repeat_mset n MM) = repeat_mset n (sum_mset MM)"
  by (induction n) simp_all

lemma mean_repeat:
  assumes "mset ys = repeat_mset n (mset xs)" "0 < n"
  shows "mean ys = mean xs"
proof -
  have "sum_list ys = sum_mset (mset ys)"
    by (simp add: sum_mset_sum_list)
  also have "\<dots> = of_nat n * sum_list xs"
    by (simp add: assms(1) sum_mset_repeat sum_mset_sum_list)
  finally have s: "sum_list ys = of_nat n * sum_list xs" .
  have "length ys = size (mset ys)"
    by simp
  also have "\<dots> = n * length xs"
    by (simp add: assms(1))
  finally have l: "length ys = n * length xs" .
  show ?thesis
    using assms(2) by (simp add: mean_def s l)
qed

lemma map_repeat:
  "mset ys = repeat_mset n (mset xs) \<Longrightarrow> mset (map f ys) = repeat_mset n (mset (map f xs))"
  by (simp add: image_mset_repeat)

lemma std_repeat:
  assumes "mset ys = repeat_mset n (mset xs)" "0 < n"
  shows "std ys = std xs"
proof -
  have m: "mean ys = mean xs"
    using assms by (rule mean_repeat)
  have "mean (map (\<lambda>x. \<bar>x - mean xs\<bar> ^ 2) ys) = mean (map (\<lambda>x. \<bar>x - mean xs\<bar> ^ 2) xs)"
    using map_repeat [OF assms(1)] assms(2) by (rule mean_repeat)
  then show ?thesis
    by (simp add: std_def m)
qed

lemma set_repeat:
  assumes "mset ys = repeat_mset n (mset xs)" "0 < n"
  shows "set ys = set xs"
proof -
  have "set_mset (mset ys) = set_mset (repeat_mset n (mset xs))"
    by (simp only: assms(1))
  also have "\<dots> = set_mset (mset xs)"
    using assms(2) by (simp only: set_mset_repeat_mset) simp
  finally show ?thesis
    by (simp only: set_mset_mset)
qed

lemma nil_repeat:
  assumes "mset ys = repeat_mset n (mset xs)" "0 < n"
  shows "ys = [] \<longleftrightarrow> xs = []"
proof -
  have "set ys = {} \<longleftrightarrow> set xs = {}"
    by (simp only: set_repeat [OF assms])
  then show ?thesis
    by simp
qed

lemma all_same_key:
  assumes "a \<in> S" "b \<in> S" "\<forall>v \<in> S. k v = k a"
  shows "\<forall>v \<in> S. k v = k b"
proof
  fix v
  assume "v \<in> S"
  with assms(3) have "k v = k a" by (rule bspec)
  also have "k a = k b"
    using bspec [OF assms(3,2)] by (rule sym)
  finally show "k v = k b" .
qed

lemma uniform_repeat:
  assumes "mset ys = repeat_mset n (mset xs)" "0 < n"
  shows "list_all (\<lambda>v. k v = k (hd ys)) ys \<longleftrightarrow> list_all (\<lambda>v. k v = k (hd xs)) xs"
proof (cases "xs = []")
  case True
  with nil_repeat [OF assms] have "ys = []"
    by (rule iffD2)
  with True show ?thesis
    by simp
next
  case False
  with nil_repeat [OF assms] have "ys \<noteq> []"
    by blast
  then have "hd ys \<in> set ys"
    by (rule hd_in_set)
  then have hy: "hd ys \<in> set xs"
    by (simp only: set_repeat [OF assms])
  from False have hx: "hd xs \<in> set xs"
    by (rule hd_in_set)
  have "(\<forall>v \<in> set xs. k v = k (hd ys)) \<longleftrightarrow> (\<forall>v \<in> set xs. k v = k (hd xs))"
    using all_same_key [OF hy hx, of k] all_same_key [OF hx hy, of k] by (rule iffI)
  then show ?thesis
    by (simp only: list_all_iff set_repeat [OF assms])
qed

lemma ncols_hd: "ncols m = (if m = [] then 0 else length (hd m))"
  by (cases m) (simp_all add: ncols_def)

lemma ncols_repeat:
  assumes "mset B = repeat_mset n (mset A)" "0 < n"
    and "list_all (\<lambda>r. length r = ncols A) A"
  shows "ncols B = ncols A"
proof (cases "A = []")
  case True
  with nil_repeat [OF assms(1,2)] have "B = []"
    by (rule iffD2)
  with True show ?thesis
    by simp
next
  case False
  with nil_repeat [OF assms(1,2)] have B: "B \<noteq> []"
    by blast
  then have "hd B \<in> set B"
    by (rule hd_in_set)
  then have "hd B \<in> set A"
    by (simp only: set_repeat [OF assms(1,2)])
  with assms(3) have "length (hd B) = ncols A"
    by (simp add: list_all_iff)
  with B show ?thesis
    by (simp add: ncols_hd)
qed

lemma axis0_repeat:
  assumes "mset B = repeat_mset n (mset A)" "0 < n"
    and "list_all (\<lambda>r. length r = ncols A) A"
  shows "mean_axis0 B = mean_axis0 A" "std_axis0 B = std_axis0 A"
proof -
  have c: "mset (column j B) = repeat_mset n (mset (column j A))" for j
    unfolding column_def using assms(1) by (rule map_repeat)
  have "mean (column j B) = mean (column j A)" "std (column j B) = std (column j A)" for j
    using c [of j] assms(2) by (rule mean_repeat, rule std_repeat)
  then show "mean_axis0 B = mean_axis0 A" "std_axis0 B = std_axis0 A"
    by (simp_all add: mean_axis0_def std_axis0_def ncols_repeat [OF assms])
qed

lemma concat_repeat:
  assumes "mset ys = repeat_mset n (mset xs)"
  shows "mset (concat (map f ys)) = repeat_mset n (mset (concat (map f xs)))"
proof -
  have "mset (concat (map f zs)) = sum_mset (image_mset (\<lambda>z. mset (f z)) (mset zs))" for zs
    by (induction zs) simp_all
  then show ?thesis
    by (simp add: assms image_mset_repeat sum_mset_repeat_mset)
qed

lemma np_concatenate_eq:
  "np_concatenate ms =
     (if ms = [] then Inl ValueError
      else if list_all (\<lambda>r. length r = length (hd (concat ms))) (concat ms)
      then Inr (concat ms) else Inl ValueError)"
  by (cases "concat ms = []") (simp_all add: np_concatenate_def ncols_hd del: concat_eq_Nil_conv)

lemma label_row_cases:
  "label_row s =
     (if frame_ids s = [] then Inl IndexError
      else if in_int32 (drop_frame s) then Inr (label_vec s) else Inl OverflowError)"
  by (cases "frame_ids s" rule: rev_cases)
     (auto simp: label_row_def py_get_def label_vec_def nth_append sub_int32_def)

lemma map_err_label_row_ok:
  "\<forall>s \<in> set xs. frame_ids s \<noteq> [] \<and> in_int32 (drop_frame s) \<Longrightarrow>
   map_err label_row xs = Inr (map label_vec xs)"
proof (induction xs)
  case Nil
  then show ?case by simp
next
  case (Cons s xs)
  then have "label_row s = Inr (label_vec s)" "map_err label_row xs = Inr (map label_vec xs)"
    by (simp_all add: label_row_cases [of s])
  then show ?case
    by simp
qed

lemma map_err_label_row_bad:
  "\<exists>s \<in> set xs. frame_ids s = [] \<or> \<not> in_int32 (drop_frame s) \<Longrightarrow>
   \<exists>e. map_err label_row xs = Inl e"
proof (induction xs)
  case Nil
  then show ?case by simp
next
  case (Cons s xs)
  show ?case
  proof (cases "frame_ids s = [] \<or> \<not> in_int32 (drop_frame s)")
    case True
    then have "\<exists>e. label_row s = Inl e"
      by (auto simp: label_row_cases [of s])
    then obtain e where "label_row s = Inl e" ..
    then show ?thesis
      by simp
  next
    case False
    with Cons.prems have "\<exists>s \<in> set xs. frame_ids s = [] \<or> \<not> in_int32 (drop_frame s)"
      by auto
    from Cons.IH [OF this] obtain e where e: "map_err label_row xs = Inl e" ..
    from False have "label_row s = Inr (label_vec s)"
      by (simp add: label_row_cases [of s])
    with e show ?thesis
      by simp
  qed
qed

lemma map_err_label_row_index:
  assumes "\<forall>s \<in> set xs. in_int32 (drop_frame s)" "\<exists>s \<in> set xs. frame_ids s = []"
  shows "map_err label_row xs = Inl IndexError"
  using assms
proof (induction xs)
  case Nil
  then show ?case by simp
next
  case (Cons s xs)
  show ?case
  proof (cases "frame_ids s = []")
    case True
    then have "label_row s = Inl IndexError"
      by (simp add: label_row_cases [of s])
    then show ?thesis
      by simp
  next
    case False
    with Cons.prems have "\<forall>s \<in> set xs. in_int32 (drop_frame s)" "\<exists>s \<in> set xs. frame_ids s = []"
      by auto
    from Cons.IH [OF this] have e: "map_err label_row xs = Inl IndexError" .
    from False Cons.prems(1) have "label_row s = Inr (label_vec s)"
      by (simp add: label_row_cases [of s])
    with e show ?thesis
      by simp
  qed
qed

lemma map_err_label_row_overflow:
  assumes "\<forall>s \<in> set xs. frame_ids s \<noteq> []" "\<exists>s \<in> set xs. \<not> in_int32 (drop_frame s)"
  shows "map_err label_row xs = Inl OverflowError"
  using assms
proof (induction xs)
  case Nil
  then show ?case by simp
next
  case (Cons s xs)
  show ?case
  proof (cases "in_int32 (drop_frame s)")
    case False
    with Cons.prems(1) have "label_row s = Inl OverflowError"
      by (simp add: label_row_cases [of s])
    then show ?thesis
      by simp
  next
    case True
    with Cons.prems have "\<forall>s \<in> set xs. frame_ids s \<noteq> []" "\<exists>s \<in> set xs. \<not> in_int32 (drop_frame s)"
      by auto
    from Cons.IH [OF this] have e: "map_err label_row xs = Inl OverflowError" .
    from True Cons.prems(1) have "label_row s = Inr (label_vec s)"
      by (simp add: label_row_cases [of s])
    with e show ?thesis
      by simp
  qed
qed

text \<open>
  The statistics of the replicated pool are those of the pool. The one difference that the
  order of the samples can make is which of two exceptions is raised, when the pool holds
  both a sample without frame numbers and a sample whose \<open>drop_frame\<close> does not fit an
  \<open>int32\<close>: the comprehension stops at the first of them.
\<close>

lemma norm_stats_replicated:
  assumes ne: "smp \<noteq> []" and R: "1 \<le> R"
  shows "norm_stats (resampling_v2 smp R g) = norm_stats smp
     \<or> (\<exists>e e'. norm_stats (resampling_v2 smp R g) = Inl e \<and> norm_stats smp = Inl e'
          \<and> (\<exists>s \<in> set smp. frame_ids s = []) \<and> (\<exists>s \<in> set smp. \<not> in_int32 (drop_frame s)))"
proof -
  let ?out = "resampling_v2 smp R g"
  let ?n = "nat R"
  have n: "0 < ?n" using R by simp
  have m: "mset ?out = repeat_mset ?n (mset smp)"
    by (rule mset_resampling_v2)
  have out_ne: "?out \<noteq> []"
    using nil_repeat [OF m n] ne by simp
  let ?A = "concat (map frames smp)" and ?B = "concat (map frames ?out)"
  have mA: "mset ?B = repeat_mset ?n (mset ?A)"
    using m by (rule concat_repeat)
  have uA: "list_all (\<lambda>r. length r = length (hd ?B)) ?B
      \<longleftrightarrow> list_all (\<lambda>r. length r = length (hd ?A)) ?A"
    using mA n by (rule uniform_repeat)
  let ?L = "map label_vec smp" and ?M = "map label_vec ?out"
  have mL: "mset ?M = repeat_mset ?n (mset ?L)"
    using m by (rule map_repeat)
  have uL: "list_all (\<lambda>v. length v = length (hd ?M)) ?M
      \<longleftrightarrow> list_all (\<lambda>v. length v = length (hd ?L)) ?L"
    using mL n by (rule uniform_repeat)
  have so: "set ?out = set smp"
    by (rule set_repeat [OF m n])
  show ?thesis
  proof (cases "list_all (\<lambda>r. length r = length (hd ?A)) ?A")
    case False
    then have "norm_stats ?out = norm_stats smp"
      using uA ne out_ne by (simp add: norm_stats_def np_concatenate_eq)
    then show ?thesis ..
  next
    case cA: True
    then have cA': "list_all (\<lambda>r. length r = ncols ?A) ?A"
      by (cases "?A = []") (simp_all add: ncols_hd del: concat_eq_Nil_conv)
    have fA: "np_concatenate (map frames smp) = Inr ?A" "np_concatenate (map frames ?out) = Inr ?B"
      using cA uA ne out_ne by (simp_all add: np_concatenate_eq)
    note sA = axis0_repeat [OF mA n cA']
    consider (ok) "\<forall>s \<in> set smp. frame_ids s \<noteq> [] \<and> in_int32 (drop_frame s)"
      | (index) "\<forall>s \<in> set smp. in_int32 (drop_frame s)" "\<exists>s \<in> set smp. frame_ids s = []"
      | (overflow) "\<forall>s \<in> set smp. frame_ids s \<noteq> []" "\<exists>s \<in> set smp. \<not> in_int32 (drop_frame s)"
      | (both) "\<exists>s \<in> set smp. frame_ids s = []" "\<exists>s \<in> set smp. \<not> in_int32 (drop_frame s)"
      by blast
    then show ?thesis
    proof cases
      case ok
      then have rows: "map_err label_row smp = Inr ?L" "map_err label_row ?out = Inr ?M"
        by (simp_all only: map_err_label_row_ok so)
      have "norm_stats ?out = norm_stats smp"
      proof (cases "list_all (\<lambda>v. length v = length (hd ?L)) ?L")
        case False
        then show ?thesis
          using uL ne out_ne by (simp add: norm_stats_def fA rows np_stack_def)
      next
        case cL: True
        then have cL': "list_all (\<lambda>r. length r = ncols ?L) ?L"
          using ne by (simp add: ncols_hd)
        have st: "np_stack ?L = Inr ?L" "np_stack ?M = Inr ?M"
          using cL uL ne out_ne by (simp_all add: np_stack_def)
        note sL = axis0_repeat [OF mL n cL']
        show ?thesis
          by (simp add: norm_stats_def fA rows st sA sL)
      qed
      then show ?thesis ..
    next
      case index
      then have "map_err label_row smp = Inl IndexError" "map_err label_row ?out = Inl IndexError"
        by (simp_all only: map_err_label_row_index so)
      then have "norm_stats ?out = norm_stats smp"
        by (simp add: norm_stats_def fA)
      then show ?thesis ..
    next
      case overflow
      then have "map_err label_row smp = Inl OverflowError"
        "map_err label_row ?out = Inl OverflowError"
        by (simp_all only: map_err_label_row_overflow so)
      then have "norm_stats ?out = norm_stats smp"
        by (simp add: norm_stats_def fA)
      then show ?thesis ..
    next
      case both
      from both(1) have b: "\<exists>s \<in> set smp. frame_ids s = [] \<or> \<not> in_int32 (drop_frame s)"
        by blast
      then have b': "\<exists>s \<in> set ?out. frame_ids s = [] \<or> \<not> in_int32 (drop_frame s)"
        by (simp only: so)
      from map_err_label_row_bad [OF b] obtain e' where e': "map_err label_row smp = Inl e'" ..
      from map_err_label_row_bad [OF b'] obtain e where e: "map_err label_row ?out = Inl e" ..
      have "norm_stats ?out = Inl e" "norm_stats smp = Inl e'"
        by (simp_all add: norm_stats_def fA e e')
      with both show ?thesis
        by blast
    qed
  qed
qed

text \<open>
  Claim C6. For a non-empty sample list and a replication factor R of at least 1, the
  four statistics computed over the output of \<open>resampling_v2\<close> (the pool replicated R times
  and shuffled) are those computed over the list itself: replicating every row R times and
  permuting the rows changes neither a mean nor a standard deviation. The computation
  succeeds on the replicated pool exactly when it succeeds on the list, with the same four
  arrays; and when every \<open>drop_frame\<close> fits an \<open>int32\<close>, or every sample has a frame number,
  it also raises the same exception on both (otherwise which of \<open>IndexError\<close> and
  \<open>OverflowError\<close> is raised depends on the order of the samples). So the statistics that
  training-mode construction computes from the samples passed in and stores are the
  statistics of the expanded pool it keeps in \<open>samples\<close>. Arithmetic is that of the reals:
  rounding, which depends on the order of summation, is outside the model.
\<close>

theorem stats_of_expanded_pool:
  assumes "smp \<noteq> []" "1 \<le> R"
  shows "(\<forall>st. norm_stats (resampling_v2 smp R g) = Inr st \<longleftrightarrow> norm_stats smp = Inr st)
     \<and> ((\<forall>s \<in> set smp. in_int32 (drop_frame s)) \<or> (\<forall>s \<in> set smp. frame_ids s \<noteq> []) \<longrightarrow>
           norm_stats (resampling_v2 smp R g) = norm_stats smp)
     \<and> (\<forall>ds. BadmintonDataset_init smp mn mx ''train'' R a b c d g = Inr ds \<longrightarrow>
           samples ds = resampling_v2 smp R g
         \<and> (\<exists>fm fs lm ls. get_norm_stats ds = (Some fm, Some fs, Some lm, Some ls)
               \<and> norm_stats smp = Inr (fm, fs, lm, ls)
               \<and> norm_stats (samples ds) = Inr (fm, fs, lm, ls)))"
proof (intro conjI allI impI)
  note r = norm_stats_replicated [OF assms, of g]
  show e: "norm_stats (resampling_v2 smp R g) = Inr st \<longleftrightarrow> norm_stats smp = Inr st" for st
    using r by auto
  show "norm_stats (resampling_v2 smp R g) = norm_stats smp"
    if "(\<forall>s \<in> set smp. in_int32 (drop_frame s)) \<or> (\<forall>s \<in> set smp. frame_ids s \<noteq> [])"
    using r that by blast
  fix ds
  assume "BadmintonDataset_init smp mn mx ''train'' R a b c d g = Inr ds"
  from init_train_Inr [OF this] obtain fm fs lm ls where
    ns: "norm_stats smp = Inr (fm, fs, lm, ls)"
    and s: "samples ds = resampling_v2 smp R g"
    and st: "get_norm_stats ds = (Some fm, Some fs, Some lm, Some ls)"
    by (auto simp: get_norm_stats_def)
  show "samples ds = resampling_v2 smp R g"
    by (rule s)
  show "\<exists>fm fs lm ls. get_norm_stats ds = (Some fm, Some fs, Some lm, Some ls)
               \<and> norm_stats smp = Inr (fm, fs, lm, ls)
               \<and> norm_stats (samples ds) = Inr (fm, fs, lm, ls)"
    using ns st e s by simp
qed

text \<open>The pool of two trajectories replicated three times.\<close>

theorem stats_of_expanded_pool_witness:
  "norm_stats (resampling_v2 pool2 3 gen0) = norm_stats pool2
   \<and> length (resampling_v2 pool2 3 gen0) = 6
   \<and> (\<exists>ds fm fs lm ls.
         BadmintonDataset_init pool2 10 50 ''train'' 3 None None None None gen0 = Inr ds
       \<and> get_norm_stats ds = (Some fm, Some fs, Some lm, Some ls)
       \<and> norm_stats (samples ds) = Inr (fm, fs, lm, ls))"
proof -
  have ne: "pool2 \<noteq> []" and wf: "list_all (wf_sample 1) pool2"
    by (simp_all add: pool2_def wf_sample_def traj8_def traj_const_def in_int32_def)
  from wf have dr: "\<forall>s \<in> set pool2. in_int32 (drop_frame s)"
    by (simp add: list_all_iff wf_sample_def)
  from init_train_wf [OF ne wf, of 10 50 3 None None None None gen0] obtain ds where
    i: "BadmintonDataset_init pool2 10 50 ''train'' 3 None None None None gen0 = Inr ds"
    by auto
  have l: "length (resampling_v2 pool2 3 gen0) = 6"
    by (simp add: length_resampling_v2 pool2_def)
  from stats_of_expanded_pool [OF ne, of 3 gen0 10 50 None None None None] i l dr show ?thesis
    by auto
qed

section \<open>The interior-sampling expander\<close>

lemma subsample_slice:
  assumes "1 \<le> seq_len" "seq_len \<le> int (length xs)" "seq_len - 1 \<le> end_idx"
    "end_idx \<le> int (length xs) - 1"
  shows "py_slice xs (end_idx - seq_len + 1) (end_idx + 1)
      = take (nat seq_len) (drop (nat (end_idx - seq_len + 1)) xs)"
    and "int (length (py_slice xs (end_idx - seq_len + 1) (end_idx + 1))) = seq_len"
proof -
  let ?a = "nat (end_idx - seq_len + 1)" and ?b = "nat (end_idx + 1)"
  have ab: "int ?a = end_idx - seq_len + 1" "int ?b = end_idx + 1" "?a \<le> ?b" "?b \<le> length xs"
    "?b - ?a = nat seq_len"
    using assms by auto
  from py_slice_nonneg [OF ab(3,4)] show
    "py_slice xs (end_idx - seq_len + 1) (end_idx + 1) = take (nat seq_len) (drop ?a xs)"
    by (simp only: ab)
  then show "int (length (py_slice xs (end_idx - seq_len + 1) (end_idx + 1))) = seq_len"
    using assms by auto
qed

lemma inner_step:
  assumes "1 \<le> mn" "mn \<le> mx"
  shows "\<exists>drawn g1. randint mn (mx + 1) g = Inr (drawn, g1) \<and> mn \<le> drawn \<and> drawn \<le> mx
     \<and> (int (length (frames s)) < drawn \<longrightarrow>
           resampling_inner s (Suc k) mn mx g = resampling_inner s k mn mx g1)
     \<and> (drawn \<le> int (length (frames s)) \<longrightarrow>
           (\<exists>e g2. is_subsample mn mx s e \<and>
              resampling_inner s (Suc k) mn mx g =
                ebind (resampling_inner s k mn mx g2) (\<lambda>(rest, g3). Inr (e # rest, g3))))"
proof -
  let ?n = "int (length (frames s))"
  from randint_range [of mn "mx + 1" g] assms obtain drawn g1 where
    d: "randint mn (mx + 1) g = Inr (drawn, g1)" "mn \<le> drawn" "drawn \<le> mx"
    by auto
  have skip: "resampling_inner s (Suc k) mn mx g = resampling_inner s k mn mx g1"
    if "?n < drawn"
    using that d(1) by (simp add: Let_def)
  have take: "\<exists>e g2. is_subsample mn mx s e \<and>
              resampling_inner s (Suc k) mn mx g =
                ebind (resampling_inner s k mn mx g2) (\<lambda>(rest, g3). Inr (e # rest, g3))"
    if le: "drawn \<le> ?n"
  proof -
    from randint_range [of "drawn - 1" ?n g1] le obtain end_idx g2 where
      e: "randint (drawn - 1) ?n g1 = Inr (end_idx, g2)" "drawn - 1 \<le> end_idx" "end_idx < ?n"
      by auto
    let ?e = "\<lparr>frames = py_slice (frames s) (end_idx - drawn + 1) (end_idx + 1),
               frame_ids = py_slice (frame_ids s) (end_idx - drawn + 1) (end_idx + 1),
               drop_frame = drop_frame s, label_xyz = label_xyz s\<rparr>"
    have d1: "1 \<le> drawn"
      using assms(1) d(2) by simp
    have e2: "end_idx \<le> ?n - 1"
      using e(3) by simp
    have "is_subsample mn mx s ?e"
      unfolding is_subsample_def
      using d(2,3) le e(2) e2 subsample_slice [OF d1 le e(2) e2]
      by (intro exI [of _ drawn] exI [of _ end_idx]) simp
    moreover have "resampling_inner s (Suc k) mn mx g =
                ebind (resampling_inner s k mn mx g2) (\<lambda>(rest, g3). Inr (?e # rest, g3))"
      using le d(1) e(1) by (simp add: Let_def)
    ultimately show ?thesis
      by blast
  qed
  show ?thesis
    using d skip take by blast
qed

lemma resampling_inner_ok:
  assumes "1 \<le> mn" "mn \<le> mx"
  shows "\<exists>xs g'. resampling_inner s k mn mx g = Inr (xs, g') \<and> length xs \<le> k
     \<and> (\<forall>e \<in> set xs. is_subsample mn mx s e)
     \<and> (int (length (frames s)) < mn \<longrightarrow> xs = [])"
proof (induction k arbitrary: g)
  case 0
  show ?case by simp
next
  case (Suc k)
  from inner_step [OF assms, of g s k] obtain drawn g1 where
    d: "mn \<le> drawn"
    and skip: "int (length (frames s)) < drawn \<Longrightarrow>
           resampling_inner s (Suc k) mn mx g = resampling_inner s k mn mx g1"
    and take: "drawn \<le> int (length (frames s)) \<Longrightarrow>
           \<exists>e g2. is_subsample mn mx s e \<and>
              resampling_inner s (Suc k) mn mx g =
                ebind (resampling_inner s k mn mx g2) (\<lambda>(rest, g3). Inr (e # rest, g3))"
    by blast
  show ?case
  proof (cases "int (length (frames s)) < drawn")
    case True
    from Suc [of g1] obtain xs g' where
      "resampling_inner s k mn mx g1 = Inr (xs, g')" "length xs \<le> k"
      "\<forall>e \<in> set xs. is_subsample mn mx s e" "int (length (frames s)) < mn \<longrightarrow> xs = []"
      by blast
    then show ?thesis
      unfolding skip [OF True] by auto
  next
    case False
    then have le: "drawn \<le> int (length (frames s))"
      by simp
    from take [OF le] obtain e g2 where
      e: "is_subsample mn mx s e"
      and r: "resampling_inner s (Suc k) mn mx g =
                ebind (resampling_inner s k mn mx g2) (\<lambda>(rest, g3). Inr (e # rest, g3))"
      by blast
    from Suc [of g2] obtain xs g' where
      x: "resampling_inner s k mn mx g2 = Inr (xs, g')" "length xs \<le> k"
      "\<forall>e \<in> set xs. is_subsample mn mx s e"
      by blast
    have "resampling_inner s (Suc k) mn mx g = Inr (e # xs, g')"
      unfolding r x(1) by simp
    moreover have "\<not> int (length (frames s)) < mn"
      using d le by simp
    ultimately show ?thesis
      using e x(2,3) by auto
  qed
qed

lemma resampling_outer_ok:
  assumes "1 \<le> mn" "mn \<le> mx"
  shows "\<exists>xs g'. resampling_outer smp R mn mx g = Inr (xs, g')
     \<and> length xs \<le> nat R * length smp
     \<and> (\<forall>e \<in> set xs. \<exists>s \<in> set smp. is_subsample mn mx s e)
     \<and> ((\<forall>s \<in> set smp. int (length (frames s)) < mn) \<longrightarrow> xs = [])"
proof (induction smp arbitrary: g)
  case Nil
  show ?case by simp
next
  case (Cons s ss)
  from resampling_inner_ok [OF assms, of s "nat R" g] obtain xs g1 where
    i: "resampling_inner s (nat R) mn mx g = Inr (xs, g1)" "length xs \<le> nat R"
    "\<forall>e \<in> set xs. is_subsample mn mx s e" "int (length (frames s)) < mn \<longrightarrow> xs = []"
    by blast
  from Cons [of g1] obtain ys g2 where
    o: "resampling_outer ss R mn mx g1 = Inr (ys, g2)" "length ys \<le> nat R * length ss"
    "\<forall>e \<in> set ys. \<exists>s \<in> set ss. is_subsample mn mx s e"
    "(\<forall>s \<in> set ss. int (length (frames s)) < mn) \<longrightarrow> ys = []"
    by blast
  have "resampling_outer (s # ss) R mn mx g = Inr (xs @ ys, g2)"
    by (simp add: i(1) o(1))
  moreover have "length (xs @ ys) \<le> nat R * length (s # ss)"
    using i(2) o(2) by simp
  moreover have "\<forall>e \<in> set (xs @ ys). \<exists>s' \<in> set (s # ss). is_subsample mn mx s' e"
    using i(3) o(3) by auto
  moreover have "(\<forall>s' \<in> set (s # ss). int (length (frames s')) < mn) \<longrightarrow> xs @ ys = []"
    using i(4) o(4) by simp
  ultimately show ?case
    by blast
qed

lemma set_shuffle: "set (fst (shuffle xs g)) = set xs"
  using arg_cong [OF mset_shuffle [of xs g], of set_mset] by simp

lemma length_shuffle: "length (fst (shuffle xs g)) = length xs"
  using arg_cong [OF mset_shuffle [of xs g], of size] by simp



end
